theory Spec2Isabelle
  imports Main "HOL-Library.Word"
begin

section \<open>Errors\<close>

text \<open>
  Go errors are values. The sentinel errors of the repository keep their names;
  \<open>Errorf\<close> is \<^verbatim>\<open>fmt.Errorf\<close> (or \<^verbatim>\<open>errors.New\<close>) with a plain message,
  \<open>Wrapf\<close> is \<^verbatim>\<open>fmt.Errorf("...: %w", err)\<close>, \<open>StatusError\<close> is a gRPC status error
  with its code, and \<open>External\<close> is any other error made outside the repository
  (the operating system, the transport, a reader).
\<close>

datatype code =
    OK | Canceled | Unknown | InvalidArgument | DeadlineExceeded | NotFound
  | AlreadyExists | PermissionDenied | ResourceExhausted | FailedPrecondition
  | Aborted | OutOfRange | Unimplemented | Internal | Unavailable | DataLoss
  | Unauthenticated

datatype error =
    EOF
  | ErrTokenNotFound
  | ErrLoginAlreayExists
  | ErrInvalidCredentials
  | ErrUserNotFound
  | ErrUnknownSecretType
  | StatusError code
  | External string
  | Errorf string
  | Wrapf string error

text \<open>\<^verbatim>\<open>errors.Is(err, target)\<close>: the chain of wrapped errors is searched for the target.\<close>

fun errors_Is :: "error \<Rightarrow> error \<Rightarrow> bool" where
  "errors_Is (Wrapf s e) t = (Wrapf s e = t \<or> errors_Is e t)"
| "errors_Is e t = (e = t)"

text \<open>
  \<^verbatim>\<open>status.FromError(err)\<close>: the status code when the error is a gRPC status or wraps
  one.
\<close>

fun status_FromError :: "error \<Rightarrow> code option" where
  "status_FromError (StatusError c) = Some c"
| "status_FromError (Wrapf s e) = status_FromError e"
| "status_FromError e = None"

section \<open>Domain model (internal/domain)\<close>

type_synonym bytes = string

text \<open>\<^verbatim>\<open>type SecretType string\<close> with its four constants.\<close>

type_synonym SecretType = string

definition CredentialsSecretType :: SecretType where
  "CredentialsSecretType = ''credentials''"

definition PaymentCardSecretType :: SecretType where
  "PaymentCardSecretType = ''payment_card''"

definition FileSecretType :: SecretType where
  "FileSecretType = ''file''"

definition TextSecretType :: SecretType where
  "TextSecretType = ''text''"

record SecretInfo =
  Name :: string
  Type :: SecretType
  Metadata :: string
  Version :: "32 word"
  CreatedAt :: int

record Secret =
  Info :: SecretInfo
  Data :: string

section \<open>Wire messages (generated protobuf code, outside the sources)\<close>

text \<open>
  \<^verbatim>\<open>pb.SecretType\<close> is an \<^verbatim>\<open>int32\<close> enumeration. Its generated constants are not part
  of the sources, so the four numbers are a parameter of the mapping functions.
\<close>

type_synonym pb_SecretType = "32 word"

record pb_names =
  SecretType_CREDENTIALS :: pb_SecretType
  SecretType_PAYMENT_CARD :: pb_SecretType
  SecretType_BINARY :: pb_SecretType
  SecretType_TEXT :: pb_SecretType

text \<open>
  A Go \<^verbatim>\<open>switch\<close> whose cases are constants does not compile when two of them are
  equal, so the four numbers are pairwise distinct in any build of the mapper.
\<close>

definition names_distinct :: "pb_names \<Rightarrow> bool" where
  "names_distinct pb =
     distinct [SecretType_CREDENTIALS pb, SecretType_PAYMENT_CARD pb,
               SecretType_BINARY pb, SecretType_TEXT pb]"

text \<open>\<^verbatim>\<open>pb.CreateSecretInfoRequest\<close>, with the three fields the client fills.\<close>

record CreateSecretInfoRequest =
  req_Name :: string
  req_Type :: pb_SecretType
  req_Metadata :: string

text \<open>\<^verbatim>\<open>pb.GetSecretInfoResponse\<close>, read through its getters.\<close>

record GetSecretInfoResponse =
  resp_Name :: string
  resp_Metadata :: string
  resp_Version :: "32 word"
  resp_Type :: pb_SecretType
  resp_CreatedAt :: int

text \<open>\<^verbatim>\<open>pb.CreateSecretRequest\<close> of the buffered create.\<close>

record CreateSecretRequest =
  creq_Info :: CreateSecretInfoRequest
  creq_Data :: string

text \<open>The \<^verbatim>\<open>oneof chunk\<close> of the upload stream.\<close>

datatype CreateSecretChunkRequest =
    CreateSecretChunkRequest_Info CreateSecretInfoRequest
  | CreateSecretChunkRequest_Data bytes

text \<open>
  The \<^verbatim>\<open>oneof chunk\<close> of the download stream, as decoded from the wire: the field may be
  unset, and a Data payload decoded from the wire is a non-nil slice even when empty.
\<close>

datatype GetSecretChunkResponse =
    GetSecretChunkResponse_Info GetSecretInfoResponse
  | GetSecretChunkResponse_Data bytes
  | GetSecretChunkResponse_unset

fun GetInfo :: "GetSecretChunkResponse \<Rightarrow> GetSecretInfoResponse option" where
  "GetInfo (GetSecretChunkResponse_Info i) = Some i"
| "GetInfo m = None"

fun GetData :: "GetSecretChunkResponse \<Rightarrow> bytes option" where
  "GetData (GetSecretChunkResponse_Data d) = Some d"
| "GetData m = None"

section \<open>Mappers (internal/interfaces/grpc)\<close>

definition mapProtoSecretTypeToDomain :: "pb_names \<Rightarrow> pb_SecretType \<Rightarrow> SecretType" where
  "mapProtoSecretTypeToDomain pb stype =
     (if stype = SecretType_CREDENTIALS pb then CredentialsSecretType
      else if stype = SecretType_PAYMENT_CARD pb then PaymentCardSecretType
      else if stype = SecretType_BINARY pb then FileSecretType
      else if stype = SecretType_TEXT pb then TextSecretType
      else ''unknown'')"

definition mapDomainSecretTypeToProto :: "pb_names \<Rightarrow> SecretType \<Rightarrow> pb_SecretType" where
  "mapDomainSecretTypeToProto pb domainType =
     (if domainType = CredentialsSecretType then SecretType_CREDENTIALS pb
      else if domainType = TextSecretType then SecretType_TEXT pb
      else if domainType = FileSecretType then SecretType_BINARY pb
      else if domainType = PaymentCardSecretType then SecretType_PAYMENT_CARD pb
      else - 1)"

definition mapDomainSecretInfoToProtoCreateSecretInfoRequest ::
  "pb_names \<Rightarrow> SecretInfo \<Rightarrow> CreateSecretInfoRequest" where
  "mapDomainSecretInfoToProtoCreateSecretInfoRequest pb secretInfo =
     \<lparr>req_Name = Name secretInfo,
      req_Type = mapDomainSecretTypeToProto pb (Type secretInfo),
      req_Metadata = Metadata secretInfo\<rparr>"

definition mapProtoGetSecretInfoResponseToDomainSecretInfo ::
  "pb_names \<Rightarrow> GetSecretInfoResponse \<Rightarrow> SecretInfo" where
  "mapProtoGetSecretInfoResponseToDomainSecretInfo pb info =
     \<lparr>Name = resp_Name info,
      Type = mapProtoSecretTypeToDomain pb (resp_Type info),
      Metadata = resp_Metadata info,
      Version = resp_Version info,
      CreatedAt = resp_CreatedAt info\<rparr>"

section \<open>Byte sources (\<^verbatim>\<open>io.Reader\<close>)\<close>

text \<open>
  The content of a source is held in the pieces in which it becomes available: one
  piece for a file or an in-memory reader, one piece per write for a pipe. A call
  \<^verbatim>\<open>Read(buf)\<close> returns at most \<^verbatim>\<open>len(buf)\<close> bytes of the first piece. When no piece is
  left it returns zero bytes and the source's final error (\<^verbatim>\<open>io.EOF\<close>, or a failure).
  \<^verbatim>\<open>io.Reader\<close> also allows a source to return that final error together with its last
  bytes; \<open>with_last\<close> says that the source does so.
\<close>

record byte_source =
  pending :: "bytes list"
  ending :: error
  with_last :: bool

definition source_Read :: "nat \<Rightarrow> byte_source \<Rightarrow> (bytes \<times> error option) \<times> byte_source" where
  "source_Read cap r =
     (case pending r of
        [] \<Rightarrow> (([], Some (ending r)), r)
      | seg # rest \<Rightarrow>
          if cap < length seg
          then ((take cap seg, None), r\<lparr>pending := drop cap seg # rest\<rparr>)
          else ((seg, if rest = [] \<and> with_last r then Some (ending r) else None),
                r\<lparr>pending := rest\<rparr>))"

text \<open>What is left to read: the measure of every loop over a source.\<close>

definition source_size :: "byte_source \<Rightarrow> nat" where
  "source_size r = sum_list (map length (pending r)) + length (pending r)"

text \<open>
  \<^verbatim>\<open>io.ReadAll\<close> of the Go library: reads until an error, keeps the bytes of every
  read, and reports \<^verbatim>\<open>io.EOF\<close> as success. Its buffer always has free room; the room is
  taken as 512 bytes, the initial capacity, on every read.
\<close>

function io_ReadAll_loop :: "bytes \<Rightarrow> byte_source \<Rightarrow> (bytes \<times> error option) \<times> byte_source" where
  "io_ReadAll_loop b r =
     (case source_Read 512 r of
        ((buf, err), r') \<Rightarrow>
          (case err of
             Some e \<Rightarrow> ((b @ buf, if e = EOF then None else Some e), r')
           | None \<Rightarrow> io_ReadAll_loop (b @ buf) r'))"
  by pat_completeness auto
termination
  by (relation "measure (\<lambda>(b, r). source_size r)")
     (auto simp: source_Read_def source_size_def split: list.splits if_splits)

definition io_ReadAll :: "byte_source \<Rightarrow> (bytes \<times> error option) \<times> byte_source" where
  "io_ReadAll r = io_ReadAll_loop [] r"

section \<open>Streamed upload (internal/interfaces/grpc/secret.go)\<close>

definition chunkSize :: nat where
  "chunkSize = 1024 * 512"

text \<open>
  The client side of the upload stream: the messages sent so far, the outcomes of the
  coming \<^verbatim>\<open>Send\<close> calls (success once the list is used up), and the outcome of
  \<^verbatim>\<open>CloseAndRecv\<close>.
\<close>

record client_stream =
  sent :: "CreateSecretChunkRequest list"
  send_results :: "error option list"
  close_result :: "error option"

definition Send :: "CreateSecretChunkRequest \<Rightarrow> client_stream \<Rightarrow> error option \<times> client_stream" where
  "Send m s =
     (case send_results s of
        [] \<Rightarrow> (None, s\<lparr>sent := sent s @ [m]\<rparr>)
      | None # rs \<Rightarrow> (None, s\<lparr>sent := sent s @ [m], send_results := rs\<rparr>)
      | Some e # rs \<Rightarrow> (Some e, s\<lparr>send_results := rs\<rparr>))"

definition CloseAndRecv :: "client_stream \<Rightarrow> error option" where
  "CloseAndRecv s = close_result s"

definition sendMetadataChunk ::
  "pb_names \<Rightarrow> client_stream \<Rightarrow> Secret \<Rightarrow> error option \<times> client_stream" where
  "sendMetadataChunk pb stream secret =
     Send (CreateSecretChunkRequest_Info
             (mapDomainSecretInfoToProtoCreateSecretInfoRequest pb (Info secret))) stream"

function sendDataChunks ::
  "client_stream \<Rightarrow> byte_source \<Rightarrow> error option \<times> client_stream \<times> byte_source" where
  "sendDataChunks stream reader =
     (case source_Read chunkSize reader of
        ((buf, err), reader') \<Rightarrow>
          (case err of
             Some e \<Rightarrow>
               if errors_Is e EOF then (None, stream, reader')
               else (Some e, stream, reader')
           | None \<Rightarrow>
               if 0 < length buf
               then (case Send (CreateSecretChunkRequest_Data buf) stream of
                       (Some e, stream') \<Rightarrow> (Some e, stream', reader')
                     | (None, stream') \<Rightarrow> sendDataChunks stream' reader')
               else sendDataChunks stream reader'))"
  by pat_completeness auto
termination
  by (relation "measure (\<lambda>(s, r). source_size r)")
     (auto simp: source_Read_def source_size_def chunkSize_def split: list.splits if_splits)

text \<open>
  \<^verbatim>\<open>c.client.CreateSecretStream(ctx)\<close> either fails or opens a stream; the result is the
  error, the stream as the call left it (none when it could not be opened) and the
  source as the call left it.
\<close>

definition SecretClient_CreateSecretStream ::
  "pb_names \<Rightarrow> error + client_stream \<Rightarrow> Secret \<Rightarrow> byte_source \<Rightarrow>
   error option \<times> client_stream option \<times> byte_source" where
  "SecretClient_CreateSecretStream pb opened secret reader =
     (case opened of
        Inl err \<Rightarrow> (Some (Wrapf ''client.CreateSecretStream'' err), None, reader)
      | Inr stream \<Rightarrow>
          (case sendMetadataChunk pb stream secret of
             (Some err, stream1) \<Rightarrow>
               (Some (Wrapf ''failed to send metadata chunk'' err), Some stream1, reader)
           | (None, stream1) \<Rightarrow>
               (case sendDataChunks stream1 reader of
                  (Some err, stream2, reader') \<Rightarrow>
                    (Some (Wrapf ''failed to send data chunks'' err), Some stream2, reader')
                | (None, stream2, reader') \<Rightarrow>
                    (case CloseAndRecv stream2 of
                       Some err \<Rightarrow>
                         (Some (Wrapf ''failed to close stream and recieve server's response'' err),
                          Some stream2, reader')
                     | None \<Rightarrow> (None, Some stream2, reader')))))"

text \<open>The Data payloads among the messages of an upload, in order.\<close>

fun data_payloads :: "CreateSecretChunkRequest list \<Rightarrow> bytes list" where
  "data_payloads [] = []"
| "data_payloads (CreateSecretChunkRequest_Data d # ms) = d # data_payloads ms"
| "data_payloads (CreateSecretChunkRequest_Info i # ms) = data_payloads ms"

text \<open>The buffered create: one unary call carrying the mapped info and the data.\<close>

definition SecretClient_CreateSecret ::
  "pb_names \<Rightarrow> (CreateSecretRequest \<Rightarrow> 'w \<Rightarrow> error option \<times> 'w) \<Rightarrow> Secret \<Rightarrow> 'w \<Rightarrow>
   error option \<times> 'w" where
  "SecretClient_CreateSecret pb rpc secret w =
     rpc \<lparr>creq_Info = mapDomainSecretInfoToProtoCreateSecretInfoRequest pb (Info secret),
          creq_Data = Data secret\<rparr> w"

section \<open>Streamed download (secret.go, stream\_reader.go)\<close>

text \<open>
  The client side of the download stream: the messages still to arrive, the error
  \<^verbatim>\<open>Recv\<close> reports once they are used up (\<^verbatim>\<open>io.EOF\<close> after a normal end), and the
  number of \<^verbatim>\<open>Recv\<close> calls made so far.
\<close>

record server_stream =
  incoming :: "GetSecretChunkResponse list"
  final :: error
  recv_calls :: nat

definition Recv :: "server_stream \<Rightarrow> (error + GetSecretChunkResponse) \<times> server_stream" where
  "Recv s =
     (case incoming s of
        [] \<Rightarrow> (Inl (final s), s\<lparr>recv_calls := Suc (recv_calls s)\<rparr>)
      | m # ms \<Rightarrow> (Inr m, s\<lparr>incoming := ms, recv_calls := Suc (recv_calls s)\<rparr>))"

record secretStreamReader =
  stream :: server_stream
  buffer :: bytes
  index :: nat

definition NewSecretStreamReader :: "server_stream \<Rightarrow> secretStreamReader" where
  "NewSecretStreamReader s = \<lparr>stream = s, buffer = [], index = 0\<rparr>"

text \<open>
  \<^verbatim>\<open>Read(p)\<close> with \<open>n = len(p)\<close>: the result is the bytes copied into \<open>p\<close> and the error.
\<close>

function Read :: "nat \<Rightarrow> secretStreamReader \<Rightarrow> (bytes \<times> error option) \<times> secretStreamReader" where
  "Read n r =
     (if index r < length (buffer r)
      then (let out = take n (drop (index r) (buffer r))
            in ((out, None), r\<lparr>index := index r + length out\<rparr>))
      else (case Recv (stream r) of
              (Inl err, s') \<Rightarrow>
                if errors_Is err EOF then (([], Some EOF), r\<lparr>stream := s'\<rparr>)
                else (([], Some (Wrapf ''stream read failed'' err)), r\<lparr>stream := s'\<rparr>)
            | (Inr response, s') \<Rightarrow>
                (case GetData response of
                   None \<Rightarrow> (([], Some (Errorf ''expected data chunk, got %T'')), r\<lparr>stream := s'\<rparr>)
                 | Some chunk \<Rightarrow> Read n (r\<lparr>stream := s', buffer := chunk, index := 0\<rparr>))))"
  by pat_completeness auto
termination
  by (relation "measure (\<lambda>(n, r). length (incoming (stream r)))")
     (auto simp: Recv_def split: list.splits)

text \<open>
  A caller of the reader: one \<^verbatim>\<open>Read\<close> per requested size, in order, until a call
  reports an error (\<^verbatim>\<open>io.EOF\<close> included) or the caller stops asking. The result is the
  fragments returned, the error that ended the reading, and the reader.
\<close>

fun read_fragments ::
  "nat list \<Rightarrow> secretStreamReader \<Rightarrow> bytes list \<times> error option \<times> secretStreamReader" where
  "read_fragments [] r = ([], None, r)"
| "read_fragments (n # ns) r =
     (case Read n r of
        ((out, Some e), r') \<Rightarrow> ([out], Some e, r')
      | ((out, None), r') \<Rightarrow>
          (case read_fragments ns r' of (fs, e, r'') \<Rightarrow> (out # fs, e, r'')))"

definition GetLatestSecretStream ::
  "pb_names \<Rightarrow> error + server_stream \<Rightarrow> error + secretStreamReader \<times> SecretInfo" where
  "GetLatestSecretStream pb opened =
     (case opened of
        Inl err \<Rightarrow> Inl (Wrapf ''client.GetLatestSecretStream'' err)
      | Inr stream0 \<Rightarrow>
          (case Recv stream0 of
             (Inl err, stream1) \<Rightarrow> Inl (Wrapf ''failed to receive first chunk with metadata'' err)
           | (Inr firstChunk, stream1) \<Rightarrow>
               (case GetInfo firstChunk of
                  None \<Rightarrow> Inl (Errorf ''first chunk must contain secret info'')
                | Some secretInfo \<Rightarrow>
                    Inr (NewSecretStreamReader stream1,
                         mapProtoGetSecretInfoResponseToDomainSecretInfo pb secretInfo))))"

definition GetSecretStreamByVersion ::
  "pb_names \<Rightarrow> error + server_stream \<Rightarrow> error + secretStreamReader \<times> SecretInfo" where
  "GetSecretStreamByVersion pb opened =
     (case opened of
        Inl err \<Rightarrow> Inl (Wrapf ''client.GetSecretStreamByVersion'' err)
      | Inr stream0 \<Rightarrow>
          (case Recv stream0 of
             (Inl err, stream1) \<Rightarrow> Inl (Wrapf ''failed to recieve metadata'' err)
           | (Inr firstChunk, stream1) \<Rightarrow>
               (case GetInfo firstChunk of
                  None \<Rightarrow> Inl (Errorf ''first chunk must contain secret info'')
                | Some secretInfo \<Rightarrow>
                    Inr (NewSecretStreamReader stream1,
                         mapProtoGetSecretInfoResponseToDomainSecretInfo pb secretInfo))))"

section \<open>Token storage (internal/domain, internal/infrastructure/persistence)\<close>

text \<open>
  \<^verbatim>\<open>domain.TokenRepository\<close> is an interface: any store \<open>'r\<close> with these two operations.
\<close>

record 'r TokenRepository =
  GetToken :: "'r \<Rightarrow> error + string"
  SaveToken :: "string \<Rightarrow> 'r \<Rightarrow> error option \<times> 'r"

text \<open>
  The file-backed repository. Of the file system it sees the token file (absent, or its
  content) and whether reading, creating the directory or writing fails.
\<close>

record token_fs =
  token_file :: "string option"
  read_failure :: "error option"
  mkdir_failure :: "error option"
  write_failure :: "error option"

definition os_ErrNotExist :: error where
  "os_ErrNotExist = External ''file does not exist''"

definition os_ReadFile :: "token_fs \<Rightarrow> error + string" where
  "os_ReadFile fs =
     (case read_failure fs of
        Some e \<Rightarrow> Inl e
      | None \<Rightarrow> (case token_file fs of None \<Rightarrow> Inl os_ErrNotExist | Some d \<Rightarrow> Inr d))"

definition TokenRepo_GetToken :: "token_fs \<Rightarrow> error + string" where
  "TokenRepo_GetToken fs =
     (case os_ReadFile fs of
        Inl err \<Rightarrow>
          if errors_Is err os_ErrNotExist then Inl ErrTokenNotFound
          else Inl (Wrapf ''failed to read token'' err)
      | Inr data \<Rightarrow>
          if length data = 0 then Inl ErrTokenNotFound else Inr data)"

definition TokenRepo_SaveToken :: "string \<Rightarrow> token_fs \<Rightarrow> error option \<times> token_fs" where
  "TokenRepo_SaveToken token fs =
     (if token = [] then (Some (Errorf ''cannot save empty token''), fs)
      else (case mkdir_failure fs of
              Some err \<Rightarrow> (Some (Wrapf ''failed to ensure token directory exists'' err), fs)
            | None \<Rightarrow>
                (case write_failure fs of
                   Some err \<Rightarrow> (Some (Wrapf ''failed to write token'' err), fs)
                 | None \<Rightarrow> (None, fs\<lparr>token_file := Some token\<rparr>))))"

definition TokenRepo :: "token_fs TokenRepository" where
  "TokenRepo = \<lparr>GetToken = TokenRepo_GetToken, SaveToken = TokenRepo_SaveToken\<rparr>"

section \<open>Auth interceptor (interceptors package)\<close>

text \<open>
  A context carries the outgoing call metadata, a map from keys to value lists, besides
  whatever else it holds. \<^verbatim>\<open>metadata.Pairs\<close> is called with one lower-case key and one
  value; \<^verbatim>\<open>metadata.NewOutgoingContext\<close> replaces the outgoing metadata.
\<close>

type_synonym MD = "string \<rightharpoonup> string list"

record call_context =
  outgoing :: "MD option"

definition metadata_Pairs :: "string \<Rightarrow> string \<Rightarrow> MD" where
  "metadata_Pairs k v = [k \<mapsto> [v]]"

definition metadata_NewOutgoingContext :: "'c call_context_scheme \<Rightarrow> MD \<Rightarrow> 'c call_context_scheme" where
  "metadata_NewOutgoingContext ctx md = ctx\<lparr>outgoing := Some md\<rparr>"

definition injectAuthMetadata ::
  "'r TokenRepository \<Rightarrow> 'r \<Rightarrow> 'c call_context_scheme \<Rightarrow> error + 'c call_context_scheme" where
  "injectAuthMetadata repo store ctx =
     (case GetToken repo store of
        Inl err \<Rightarrow> Inl (Wrapf ''failed to get token'' err)
      | Inr token \<Rightarrow>
          Inr (metadata_NewOutgoingContext ctx
                 (metadata_Pairs ''authorization'' (''Bearer '' @ token))))"

text \<open>
  The invoker and the streamer are the continuation of the call: given the context they
  act on the connection \<open>'w\<close>. The other arguments of the interceptors (method, request,
  reply, connection, options) are passed on unchanged and are part of the continuation.
\<close>

definition UnaryInterceptor ::
  "'r TokenRepository \<Rightarrow> 'r \<Rightarrow> 'c call_context_scheme \<Rightarrow>
   ('c call_context_scheme \<Rightarrow> 'w \<Rightarrow> error option \<times> 'w) \<Rightarrow> 'w \<Rightarrow> error option \<times> 'w" where
  "UnaryInterceptor repo store ctx invoker w =
     (case injectAuthMetadata repo store ctx of
        Inl err \<Rightarrow> (Some err, w)
      | Inr ctx' \<Rightarrow> invoker ctx' w)"

definition StreamInterceptor ::
  "'r TokenRepository \<Rightarrow> 'r \<Rightarrow> 'c call_context_scheme \<Rightarrow>
   ('c call_context_scheme \<Rightarrow> 'w \<Rightarrow> (error + 's) \<times> 'w) \<Rightarrow> 'w \<Rightarrow> (error + 's) \<times> 'w" where
  "StreamInterceptor repo store ctx streamer w =
     (case injectAuthMetadata repo store ctx of
        Inl err \<Rightarrow> (Inl err, w)
      | Inr ctx' \<Rightarrow> streamer ctx' w)"

text \<open>
  A connection that records the contexts of the calls dispatched on it: the invoker and
  the streamer of a test double.
\<close>

definition recording_invoker ::
  "error option \<Rightarrow> 'c call_context_scheme \<Rightarrow> 'c call_context_scheme list \<Rightarrow>
   error option \<times> 'c call_context_scheme list" where
  "recording_invoker res ctx w = (res, w @ [ctx])"

definition recording_streamer ::
  "error + 's \<Rightarrow> 'c call_context_scheme \<Rightarrow> 'c call_context_scheme list \<Rightarrow>
   (error + 's) \<times> 'c call_context_scheme list" where
  "recording_streamer res ctx w = (res, w @ [ctx])"

section \<open>Authentication (grpc/auth.go, application)\<close>

text \<open>
  The generated \<^verbatim>\<open>pb.AuthClient\<close>: each call answers with an error or with the token of
  the response.
\<close>

record pb_AuthClient =
  pb_Register :: "string \<Rightarrow> string \<Rightarrow> error + string"
  pb_Login :: "string \<Rightarrow> string \<Rightarrow> error + string"

definition AuthClient_Register :: "pb_AuthClient \<Rightarrow> string \<Rightarrow> string \<Rightarrow> error + string" where
  "AuthClient_Register c login passsword =
     (case pb_Register c login passsword of
        Inl err \<Rightarrow>
          (case status_FromError err of
             Some st \<Rightarrow>
               if st = AlreadyExists then Inl ErrLoginAlreayExists
               else Inl (Wrapf ''registration failed'' err)
           | None \<Rightarrow>
               Inl (Wrapf ''registration failed: can't parse gRPC response code'' err))
      | Inr token \<Rightarrow>
          if token = [] then Inl (Errorf ''received empty token'') else Inr token)"

definition AuthClient_Login :: "pb_AuthClient \<Rightarrow> string \<Rightarrow> string \<Rightarrow> error + string" where
  "AuthClient_Login c login passsword =
     (case pb_Login c login passsword of
        Inl err \<Rightarrow>
          (case status_FromError err of
             Some st \<Rightarrow>
               if st = AlreadyExists then Inl ErrLoginAlreayExists
               else if st = InvalidArgument then Inl ErrInvalidCredentials
               else Inl (Wrapf ''registration failed'' err)
           | None \<Rightarrow>
               Inl (Wrapf ''registration failed: can't parse gRPC response code'' err))
      | Inr token \<Rightarrow>
          if token = [] then Inl (Errorf ''received empty token'') else Inr token)"

text \<open>\<^verbatim>\<open>domain.AuthClient\<close>, the interface the service calls.\<close>

record domain_AuthClient =
  Register :: "string \<Rightarrow> string \<Rightarrow> error + string"
  Login :: "string \<Rightarrow> string \<Rightarrow> error + string"

definition grpc_AuthClient :: "pb_AuthClient \<Rightarrow> domain_AuthClient" where
  "grpc_AuthClient c = \<lparr>Register = AuthClient_Register c, Login = AuthClient_Login c\<rparr>"

definition AuthService_Register ::
  "domain_AuthClient \<Rightarrow> 'r TokenRepository \<Rightarrow> string \<Rightarrow> string \<Rightarrow> 'r \<Rightarrow> error option \<times> 'r" where
  "AuthService_Register client tokenRepository login passsword store =
     (case Register client login passsword of
        Inl err \<Rightarrow> (Some (Wrapf ''application.Register'' err), store)
      | Inr jwtToken \<Rightarrow>
          (case SaveToken tokenRepository jwtToken store of
             (Some err, store') \<Rightarrow> (Some (Wrapf ''application.Register'' err), store')
           | (None, store') \<Rightarrow> (None, store')))"

definition AuthService_Login ::
  "domain_AuthClient \<Rightarrow> 'r TokenRepository \<Rightarrow> string \<Rightarrow> string \<Rightarrow> 'r \<Rightarrow> error option \<times> 'r" where
  "AuthService_Login client tokenRepository login passsword store =
     (case Login client login passsword of
        Inl err \<Rightarrow> (Some (Wrapf ''application.Login'' err), store)
      | Inr jwtToken \<Rightarrow>
          (case SaveToken tokenRepository jwtToken store of
             (Some err, store') \<Rightarrow> (Some (Wrapf ''application.Login'' err), store')
           | (None, store') \<Rightarrow> (None, store')))"

text \<open>A token store that only counts the \<^verbatim>\<open>SaveToken\<close> calls made on it.\<close>

definition counting_repo :: "nat TokenRepository" where
  "counting_repo = \<lparr>GetToken = (\<lambda>n. Inl ErrTokenNotFound), SaveToken = (\<lambda>t n. (None, Suc n))\<rparr>"

section \<open>Secret service (internal/application/secret.go)\<close>

text \<open>
  \<^verbatim>\<open>domain.SecretClient\<close>, the interface the service calls: the two create operations act
  on the outside world \<open>'w\<close>; the streamed one is handed the byte source.
\<close>

record 'w domain_SecretClient =
  CreateSecret :: "Secret \<Rightarrow> 'w \<Rightarrow> error option \<times> 'w"
  CreateSecretStream :: "Secret \<Rightarrow> byte_source \<Rightarrow> 'w \<Rightarrow> error option \<times> 'w"

definition SecretService_CreateSecret ::
  "'w domain_SecretClient \<Rightarrow> Secret \<Rightarrow> byte_source \<Rightarrow> 'w \<Rightarrow> error option \<times> 'w" where
  "SecretService_CreateSecret client secret contentReader w =
     (if Type (Info secret) = CredentialsSecretType \<or> Type (Info secret) = PaymentCardSecretType
      then (case io_ReadAll contentReader of
              ((secretData, Some err), r') \<Rightarrow>
                (Some (Wrapf ''application.CreateSecret: failed to read secret content'' err), w)
            | ((secretData, None), r') \<Rightarrow>
                (case CreateSecret client (secret\<lparr>Data := secretData\<rparr>) w of
                   (Some err, w') \<Rightarrow>
                     (Some (Wrapf ''application.CreateSecret: failed to create secret'' err), w')
                 | (None, w') \<Rightarrow> (None, w')))
      else if Type (Info secret) = FileSecretType \<or> Type (Info secret) = TextSecretType
      then (case CreateSecretStream client secret contentReader w of
              (Some err, w') \<Rightarrow>
                (Some (Wrapf ''application.CreateSecret: failed to create stream secret'' err), w')
            | (None, w') \<Rightarrow> (None, w'))
      else (None, w))"

text \<open>A client that records the calls made on it and answers with fixed results.\<close>

datatype client_call =
    Call_CreateSecret Secret
  | Call_CreateSecretStream Secret byte_source

definition recording_client ::
  "error option \<Rightarrow> error option \<Rightarrow> (client_call list) domain_SecretClient" where
  "recording_client res1 res2 =
     \<lparr>CreateSecret = (\<lambda>s w. (res1, w @ [Call_CreateSecret s])),
      CreateSecretStream = (\<lambda>s r w. (res2, w @ [Call_CreateSecretStream s r]))\<rparr>"

section \<open>Specification vocabulary\<close>

text \<open>
  The recursion equations of the loops are unfolded by hand, one step at a time.
\<close>

declare sendDataChunks.simps [simp del]
declare io_ReadAll_loop.simps [simp del]
declare Read.simps [simp del]

text \<open>A piece of content cut into chunks of at most \<open>n\<close> bytes, all full but the last.\<close>

function chunks_of :: "nat \<Rightarrow> 'a list \<Rightarrow> 'a list list" where
  "chunks_of n xs = (if n = 0 \<or> xs = [] then [] else take n xs # chunks_of n (drop n xs))"
  by pat_completeness auto
termination
  by (relation "measure (\<lambda>(n, xs). length xs)") auto

declare chunks_of.simps [simp del]

text \<open>What the upload loop returns when the source is used up: \<^verbatim>\<open>io.EOF\<close> ends it normally.\<close>

definition end_result :: "byte_source \<Rightarrow> error option" where
  "end_result r = (if errors_Is (ending r) EOF then None else Some (ending r))"

text \<open>
  The bytes a download reader has not handed out yet: the rest of its buffer and the
  Data payloads still to arrive.
\<close>

definition payload_of :: "GetSecretChunkResponse \<Rightarrow> bytes" where
  "payload_of m = (case GetData m of Some d \<Rightarrow> d | None \<Rightarrow> [])"

definition unread :: "secretStreamReader \<Rightarrow> bytes" where
  "unread r = drop (index r) (buffer r) @ concat (map payload_of (incoming (stream r)))"

text \<open>A download stream that follows the protocol after its Info message: Data messages, then a normal end.\<close>

definition data_only :: "server_stream \<Rightarrow> bool" where
  "data_only s = (final s = EOF \<and> list_all (\<lambda>m. GetData m \<noteq> None) (incoming s))"

definition empty_data :: "GetSecretChunkResponse \<Rightarrow> bool" where
  "empty_data m = (m = GetSecretChunkResponse_Data [])"

section \<open>Concrete readers and example values\<close>

text \<open>
  Three readers of the Go library as byte sources: a file or in-memory reader has its whole
  content available at once (\<^verbatim>\<open>os.File\<close>, \<^verbatim>\<open>bytes.Reader\<close>); a pipe delivers one piece per
  write (\<^verbatim>\<open>io.Pipe\<close>); and a reader may report \<^verbatim>\<open>io.EOF\<close> together with its last bytes
  (\<^verbatim>\<open>iotest.DataErrReader\<close>).
\<close>

definition file_source :: "bytes \<Rightarrow> byte_source" where
  "file_source S = \<lparr>pending = (if S = [] then [] else [S]), ending = EOF, with_last = False\<rparr>"

definition pipe_source :: "bytes list \<Rightarrow> byte_source" where
  "pipe_source writes = \<lparr>pending = writes, ending = EOF, with_last = False\<rparr>"

definition data_err_source :: "bytes \<Rightarrow> byte_source" where
  "data_err_source S = \<lparr>pending = [S], ending = EOF, with_last = True\<rparr>"

definition names0 :: pb_names where
  "names0 = \<lparr>SecretType_CREDENTIALS = 0, SecretType_PAYMENT_CARD = 1,
             SecretType_BINARY = 2, SecretType_TEXT = 3\<rparr>"

definition fresh_stream :: client_stream where
  "fresh_stream = \<lparr>sent = [], send_results = [], close_result = None\<rparr>"

definition note_secret :: Secret where
  "note_secret =
     \<lparr>Info = \<lparr>Name = ''note'', Type = TextSecretType, Metadata = ''m'', Version = 0,
               CreatedAt = 0\<rparr>,
      Data = []\<rparr>"

definition note_info :: CreateSecretInfoRequest where
  "note_info = \<lparr>req_Name = ''note'', req_Type = 3, req_Metadata = ''m''\<rparr>"

text \<open>The download stream of a backend that relays the Data payloads of an upload.\<close>

definition relayed :: "CreateSecretChunkRequest list \<Rightarrow> server_stream" where
  "relayed ms =
     \<lparr>incoming = map GetSecretChunkResponse_Data (data_payloads ms), final = EOF,
      recv_calls = 0\<rparr>"

definition card_secret :: Secret where
  "card_secret =
     \<lparr>Info = \<lparr>Name = ''visa'', Type = PaymentCardSecretType, Metadata = [], Version = 0,
               CreatedAt = 0\<rparr>,
      Data = []\<rparr>"

text \<open>A secret whose type is none of the four constants.\<close>

definition odd_secret :: Secret where
  "odd_secret =
     \<lparr>Info = \<lparr>Name = ''odd'', Type = ''unknown'', Metadata = [], Version = 0, CreatedAt = 0\<rparr>,
      Data = []\<rparr>"

text \<open>A backend that refuses every login: bad credentials for alice, unknown user otherwise.\<close>

definition refusing_backend :: pb_AuthClient where
  "refusing_backend =
     \<lparr>pb_Register = (\<lambda>l p. Inl (StatusError AlreadyExists)),
      pb_Login = (\<lambda>l p. Inl (StatusError (if l = ''alice'' then InvalidArgument else NotFound)))\<rparr>"

text \<open>A healthy file system without a token file, and an empty call context.\<close>

definition no_token_fs :: token_fs where
  "no_token_fs = \<lparr>token_file = None, read_failure = None, mkdir_failure = None,
                  write_failure = None\<rparr>"

definition background :: call_context where
  "background = \<lparr>outgoing = None\<rparr>"

text \<open>A download stream whose first message is a Data message, and one that starts with an empty Data message.\<close>

definition data_first :: server_stream where
  "data_first = \<lparr>incoming = [GetSecretChunkResponse_Data ''abc''], final = EOF, recv_calls = 0\<rparr>"

definition empty_then_data :: server_stream where
  "empty_then_data =
     \<lparr>incoming = [GetSecretChunkResponse_Data [], GetSecretChunkResponse_Data ''a''],
      final = EOF, recv_calls = 0\<rparr>"

section \<open>The upload loop, step by step\<close>

lemma chunkSize_pos: "0 < chunkSize"
  by (simp add: chunkSize_def)

lemma sendDataChunks_end:
  "pending r = [] \<Longrightarrow>
   sendDataChunks s r = (if errors_Is (ending r) EOF then None else Some (ending r), s, r)"
  by (subst sendDataChunks.simps) (simp add: source_Read_def)

lemma sendDataChunks_long:
  assumes "pending r = seg # rest" and "chunkSize < length seg"
  shows "sendDataChunks s r =
     (case Send (CreateSecretChunkRequest_Data (take chunkSize seg)) s of
        (Some e, s') \<Rightarrow> (Some e, s', r\<lparr>pending := drop chunkSize seg # rest\<rparr>)
      | (None, s') \<Rightarrow> sendDataChunks s' (r\<lparr>pending := drop chunkSize seg # rest\<rparr>))"
proof -
  have rd: "source_Read chunkSize r =
      ((take chunkSize seg, None), r\<lparr>pending := drop chunkSize seg # rest\<rparr>)"
    using assms by (simp add: source_Read_def)
  have ne: "0 < length (take chunkSize seg)"
    using assms chunkSize_pos by simp
  show ?thesis
    by (subst sendDataChunks.simps) (simp only: rd ne prod.case option.case if_True)
qed

lemma sendDataChunks_short:
  "pending r = seg # rest \<Longrightarrow> length seg \<le> chunkSize \<Longrightarrow> \<not> (rest = [] \<and> with_last r) \<Longrightarrow>
   sendDataChunks s r =
     (if seg = [] then sendDataChunks s (r\<lparr>pending := rest\<rparr>)
      else (case Send (CreateSecretChunkRequest_Data seg) s of
              (Some e, s') \<Rightarrow> (Some e, s', r\<lparr>pending := rest\<rparr>)
            | (None, s') \<Rightarrow> sendDataChunks s' (r\<lparr>pending := rest\<rparr>)))"
  by (subst sendDataChunks.simps) (auto simp add: source_Read_def)

lemma sendDataChunks_last_with_error:
  "pending r = [seg] \<Longrightarrow> length seg \<le> chunkSize \<Longrightarrow> with_last r \<Longrightarrow>
   sendDataChunks s r =
     (if errors_Is (ending r) EOF then None else Some (ending r), s, r\<lparr>pending := []\<rparr>)"
  by (subst sendDataChunks.simps) (simp add: source_Read_def)


lemma chunks_of_Nil [simp]: "chunks_of n [] = []"
  by (simp add: chunks_of.simps)

lemma chunks_of_short: "0 < n \<Longrightarrow> xs \<noteq> [] \<Longrightarrow> length xs \<le> n \<Longrightarrow> chunks_of n xs = [xs]"
  by (subst chunks_of.simps) simp

lemma chunks_of_long: "0 < n \<Longrightarrow> n < length xs \<Longrightarrow> chunks_of n xs = take n xs # chunks_of n (drop n xs)"
  by (subst chunks_of.simps) auto

lemma concat_chunks_of: "0 < n \<Longrightarrow> concat (chunks_of n xs) = xs"
  by (induction n xs rule: chunks_of.induct) (subst chunks_of.simps, simp)

lemma chunks_of_nonempty: "[] \<notin> set (chunks_of n xs)"
  by (induction n xs rule: chunks_of.induct) (subst chunks_of.simps, auto)

lemma chunks_of_bounded: "c \<in> set (chunks_of n xs) \<Longrightarrow> length c \<le> n"
  by (induction n xs rule: chunks_of.induct) (subst (asm) chunks_of.simps, auto split: if_splits)

lemma length_chunks_of: "0 < n \<Longrightarrow> length (chunks_of n xs) = (length xs + n - 1) div n"
proof (induction n xs rule: chunks_of.induct)
  case (1 n xs)
  show ?case
  proof (cases "xs = []")
    case True
    with 1 show ?thesis by simp
  next
    case False
    show ?thesis
    proof (cases "n < length xs")
      case True
      then have "length xs + n - 1 = (length xs - n + n - 1) + n" using 1(2) by simp
      then have "(length xs + n - 1) div n = Suc ((length xs - n + n - 1) div n)"
        using 1(2) by (metis Suc_eq_plus1 div_add_self2 less_not_refl)
      with 1 False True show ?thesis by (simp add: chunks_of_long)
    next
      case False
      with \<open>xs \<noteq> []\<close> 1(2) have "(length xs + n - 1) div n = 1"
        by (intro div_nat_eqI) (cases xs, auto)
      with 1 False \<open>xs \<noteq> []\<close> show ?thesis by (simp add: chunks_of_short)
    qed
  qed
qed



lemma Send_ok: "send_results s = [] \<Longrightarrow> Send m s = (None, s\<lparr>sent := sent s @ [m]\<rparr>)"
  by (simp add: Send_def)

lemma Send_sent:
  "Send m s = (e, s') \<Longrightarrow> sent s' = (if e = None then sent s @ [m] else sent s)"
  by (auto simp: Send_def split: list.splits option.splits)

lemma source_size_drop:
  "pending r = seg # rest \<Longrightarrow> chunkSize < length seg \<Longrightarrow>
   source_size (r\<lparr>pending := drop chunkSize seg # rest\<rparr>) < source_size r"
  using chunkSize_pos by (simp add: source_size_def)

lemma source_size_rest:
  "pending r = seg # rest \<Longrightarrow> source_size (r\<lparr>pending := rest\<rparr>) < source_size r"
  by (simp add: source_size_def)

lemma sendDataChunks_closed:
  "send_results s = [] \<Longrightarrow> \<not> with_last r \<Longrightarrow>
   sendDataChunks s r =
     (end_result r,
      s\<lparr>sent := sent s @ map CreateSecretChunkRequest_Data
                           (concat (map (chunks_of chunkSize) (pending r)))\<rparr>,
      r\<lparr>pending := []\<rparr>)"
proof (induction "source_size r" arbitrary: s r rule: less_induct)
  case less
  show ?case
  proof (cases "pending r")
    case Nil
    then show ?thesis
      by (simp add: sendDataChunks_end end_result_def)
  next
    case (Cons seg rest)
    show ?thesis
    proof (cases "chunkSize < length seg")
      case True
      let ?r = "r\<lparr>pending := drop chunkSize seg # rest\<rparr>"
      let ?s = "s\<lparr>sent := sent s @ [CreateSecretChunkRequest_Data (take chunkSize seg)]\<rparr>"
      have "sendDataChunks s r = sendDataChunks ?s ?r"
        using Cons True less.prems by (simp add: sendDataChunks_long Send_ok)
      also have "\<dots> = (end_result ?r,
          ?s\<lparr>sent := sent ?s @ map CreateSecretChunkRequest_Data
                           (concat (map (chunks_of chunkSize) (pending ?r)))\<rparr>,
          ?r\<lparr>pending := []\<rparr>)"
        using less.prems by (intro less.hyps source_size_drop [OF Cons True]) simp_all
      finally show ?thesis
        using Cons True chunkSize_pos by (simp add: chunks_of_long end_result_def)
    next
      case False
      let ?r = "r\<lparr>pending := rest\<rparr>"
      have ih: "\<And>s'. send_results s' = [] \<Longrightarrow> sendDataChunks s' ?r = (end_result ?r,
          s'\<lparr>sent := sent s' @ map CreateSecretChunkRequest_Data
                           (concat (map (chunks_of chunkSize) (pending ?r)))\<rparr>,
          ?r\<lparr>pending := []\<rparr>)"
        using less.prems by (intro less.hyps source_size_rest [OF Cons]) simp_all
      show ?thesis
      proof (cases "seg = []")
        case True
        with Cons False less.prems ih [of s] show ?thesis
          by (simp add: sendDataChunks_short end_result_def)
      next
        case ne: False
        let ?s = "s\<lparr>sent := sent s @ [CreateSecretChunkRequest_Data seg]\<rparr>"
        have "sendDataChunks s r = sendDataChunks ?s ?r"
          using Cons False ne less.prems by (simp add: sendDataChunks_short Send_ok)
        with ih [of ?s] less.prems Cons False ne chunkSize_pos show ?thesis
          by (simp add: chunks_of_short end_result_def)
      qed
    qed
  qed
qed

lemma sendDataChunks_shape:
  "\<exists>ds. sent (fst (snd (sendDataChunks s r))) = sent s @ map CreateSecretChunkRequest_Data ds
        \<and> [] \<notin> set ds \<and> (\<forall>d \<in> set ds. length d \<le> chunkSize)"
proof (induction "source_size r" arbitrary: s r rule: less_induct)
  case less
  have step: "\<exists>ds. sent (fst (snd (case Send (CreateSecretChunkRequest_Data b) s of
                  (Some e, s') \<Rightarrow> (Some e, s', r')
                | (None, s') \<Rightarrow> sendDataChunks s' r')))
               = sent s @ map CreateSecretChunkRequest_Data ds
             \<and> [] \<notin> set ds \<and> (\<forall>d \<in> set ds. length d \<le> chunkSize)"
    if sz: "source_size r' < source_size r" and b: "b \<noteq> []" "length b \<le> chunkSize" for b r'
  proof (cases "Send (CreateSecretChunkRequest_Data b) s")
    case (Pair e s')
    show ?thesis
    proof (cases e)
      case None
      from less.hyps [OF sz, of s'] obtain ds where
        ds: "sent (fst (snd (sendDataChunks s' r'))) = sent s' @ map CreateSecretChunkRequest_Data ds"
            "[] \<notin> set ds" "\<forall>d \<in> set ds. length d \<le> chunkSize" by blast
      from Pair None have "sent s' = sent s @ [CreateSecretChunkRequest_Data b]"
        by (simp add: Send_sent)
      with ds b Pair None show ?thesis
        by (intro exI [of _ "b # ds"]) simp
    next
      case (Some e')
      with Pair have "sent s' = sent s" by (simp add: Send_sent)
      with Pair Some show ?thesis by (intro exI [of _ "[]"]) simp
    qed
  qed
  show ?case
  proof (cases "pending r")
    case Nil
    then show ?thesis by (intro exI [of _ "[]"]) (simp add: sendDataChunks_end)
  next
    case (Cons seg rest)
    show ?thesis
    proof (cases "chunkSize < length seg")
      case True
      then have "take chunkSize seg \<noteq> []" "length (take chunkSize seg) \<le> chunkSize"
        using chunkSize_pos by auto
      from step [OF source_size_drop [OF Cons True] this] Cons True
      show ?thesis by (simp add: sendDataChunks_long)
    next
      case False
      show ?thesis
      proof (cases "rest = [] \<and> with_last r")
        case True
        with Cons False show ?thesis
          by (intro exI [of _ "[]"]) (simp add: sendDataChunks_last_with_error)
      next
        case nl: False
        show ?thesis
        proof (cases "seg = []")
          case True
          with Cons False nl less.hyps [OF source_size_rest [OF Cons], of s] show ?thesis
            by (simp add: sendDataChunks_short)
        next
          case ne: False
          with Cons False nl step [OF source_size_rest [OF Cons], of seg] show ?thesis
            by (simp add: sendDataChunks_short)
        qed
      qed
    qed
  qed
qed

lemma sendDataChunks_empty_content:
  "concat (pending r) = [] \<Longrightarrow> fst (snd (sendDataChunks s r)) = s"
proof (induction "source_size r" arbitrary: r rule: less_induct)
  case less
  show ?case
  proof (cases "pending r")
    case Nil
    then show ?thesis by (simp add: sendDataChunks_end)
  next
    case (Cons seg rest)
    with less.prems have seg: "seg = []" and rest: "concat rest = []" by auto
    show ?thesis
    proof (cases "rest = [] \<and> with_last r")
      case True
      with Cons seg show ?thesis by (simp add: sendDataChunks_last_with_error)
    next
      case False
      with Cons seg rest less.hyps [OF source_size_rest [OF Cons]] show ?thesis
        by (simp add: sendDataChunks_short)
    qed
  qed
qed

lemma sendDataChunks_success:
  "\<not> with_last r \<Longrightarrow> sendDataChunks s r = (None, s', r') \<Longrightarrow>
   sent s' = sent s @ map CreateSecretChunkRequest_Data
                         (concat (map (chunks_of chunkSize) (pending r)))
   \<and> r' = r\<lparr>pending := []\<rparr> \<and> errors_Is (ending r) EOF"
proof (induction "source_size r" arbitrary: s r rule: less_induct)
  case less
  have step: "sent s' = sent s @ map CreateSecretChunkRequest_Data
                         (b # concat (map (chunks_of chunkSize) (pending r1)))
      \<and> r' = r1\<lparr>pending := []\<rparr> \<and> errors_Is (ending r1) EOF"
    if sz: "source_size r1 < source_size r" and wl: "\<not> with_last r1"
      and eq: "(case Send (CreateSecretChunkRequest_Data b) s of
                  (Some e, s1) \<Rightarrow> (Some e, s1, r1)
                | (None, s1) \<Rightarrow> sendDataChunks s1 r1) = (None, s', r')" for b r1
  proof (cases "Send (CreateSecretChunkRequest_Data b) s")
    case (Pair e s1)
    with eq have e: "e = None" and rec: "sendDataChunks s1 r1 = (None, s', r')"
      by (cases e; simp)+
    from Pair e have "sent s1 = sent s @ [CreateSecretChunkRequest_Data b]"
      by (simp add: Send_sent)
    with less.hyps [OF sz wl rec] show ?thesis by simp
  qed
  show ?case
  proof (cases "pending r")
    case Nil
    with less.prems show ?thesis
      by (simp add: sendDataChunks_end split: if_splits)
  next
    case (Cons seg rest)
    show ?thesis
    proof (cases "chunkSize < length seg")
      case True
      from less.prems Cons True
      have "sent s' = sent s @ map CreateSecretChunkRequest_Data
              (take chunkSize seg # concat (map (chunks_of chunkSize)
                 (pending (r\<lparr>pending := drop chunkSize seg # rest\<rparr>))))
          \<and> r' = r\<lparr>pending := drop chunkSize seg # rest\<rparr>\<lparr>pending := []\<rparr>
          \<and> errors_Is (ending (r\<lparr>pending := drop chunkSize seg # rest\<rparr>)) EOF"
        by (intro step source_size_drop) (simp_all add: sendDataChunks_long)
      with Cons True chunkSize_pos show ?thesis by (simp add: chunks_of_long)
    next
      case False
      show ?thesis
      proof (cases "seg = []")
        case True
        with less.prems Cons False
        have "sendDataChunks s (r\<lparr>pending := rest\<rparr>) = (None, s', r')"
          by (simp add: sendDataChunks_short)
        from less.hyps [OF source_size_rest [OF Cons] _ this] less.prems(1) Cons True
        show ?thesis by simp
      next
        case ne: False
        from less.prems Cons False ne
        have "sent s' = sent s @ map CreateSecretChunkRequest_Data
              (seg # concat (map (chunks_of chunkSize) (pending (r\<lparr>pending := rest\<rparr>))))
          \<and> r' = r\<lparr>pending := rest\<rparr>\<lparr>pending := []\<rparr>
          \<and> errors_Is (ending (r\<lparr>pending := rest\<rparr>)) EOF"
          by (intro step source_size_rest) (simp_all add: sendDataChunks_short)
        with Cons False ne chunkSize_pos show ?thesis by (simp add: chunks_of_short)
      qed
    qed
  qed
qed

lemma data_payloads_append_data [simp]:
  "data_payloads (ms @ map CreateSecretChunkRequest_Data ds) = data_payloads ms @ ds"
  by (induction ms rule: data_payloads.induct) (simp_all, induction ds, simp_all)

lemma CreateSecretStream_success:
  assumes "SecretClient_CreateSecretStream pb opened secret reader = (None, res, reader')"
  shows "\<exists>st st1 st'. opened = Inr st \<and> res = Some st'
       \<and> sendMetadataChunk pb st secret = (None, st1)
       \<and> sendDataChunks st1 reader = (None, st', reader')
       \<and> CloseAndRecv st' = None"
  using assms
  by (auto simp: SecretClient_CreateSecretStream_def split: sum.splits prod.splits option.splits)

section \<open>The download reader, step by step\<close>

lemma Read_buffered:
  "index r < length (buffer r) \<Longrightarrow>
   Read n r = ((take n (drop (index r) (buffer r)), None),
               r\<lparr>index := index r + min n (length (buffer r) - index r)\<rparr>)"
  by (subst Read.simps) (simp add: Let_def min_def)

lemma Read_end:
  "\<not> index r < length (buffer r) \<Longrightarrow> incoming (stream r) = [] \<Longrightarrow>
   Read n r = (([], Some (if errors_Is (final (stream r)) EOF then EOF
                          else Wrapf ''stream read failed'' (final (stream r)))),
               r\<lparr>stream := (stream r)\<lparr>recv_calls := Suc (recv_calls (stream r))\<rparr>\<rparr>)"
  by (subst Read.simps) (simp add: Recv_def)

lemma Read_not_data:
  "\<not> index r < length (buffer r) \<Longrightarrow> incoming (stream r) = m # ms \<Longrightarrow> GetData m = None \<Longrightarrow>
   Read n r = (([], Some (Errorf ''expected data chunk, got %T'')),
               r\<lparr>stream := (stream r)\<lparr>incoming := ms, recv_calls := Suc (recv_calls (stream r))\<rparr>\<rparr>)"
  by (subst Read.simps) (simp add: Recv_def)

lemma Read_refill:
  "\<not> index r < length (buffer r) \<Longrightarrow> incoming (stream r) = m # ms \<Longrightarrow> GetData m = Some chunk \<Longrightarrow>
   Read n r = Read n (r\<lparr>stream := (stream r)\<lparr>incoming := ms, recv_calls := Suc (recv_calls (stream r))\<rparr>,
                       buffer := chunk, index := 0\<rparr>)"
  by (subst Read.simps) (simp add: Recv_def)

lemma Read_length: "length (fst (fst (Read n r))) \<le> n"
proof (induction "incoming (stream r)" arbitrary: r)
  case Nil
  then show ?case
    by (cases "index r < length (buffer r)") (simp_all add: Read_buffered Read_end)
next
  case (Cons m ms)
  show ?case
  proof (cases "index r < length (buffer r)")
    case True
    then show ?thesis by (simp add: Read_buffered)
  next
    case False
    show ?thesis
    proof (cases "GetData m")
      case None
      with False Cons(2) [symmetric] show ?thesis by (simp add: Read_not_data)
    next
      case (Some chunk)
      with False Cons(2) [symmetric] Cons(1) [of "r\<lparr>stream := (stream r)\<lparr>incoming := ms, recv_calls := Suc (recv_calls (stream r))\<rparr>,
                       buffer := chunk, index := 0\<rparr>"] show ?thesis
        by (simp add: Read_refill)
    qed
  qed
qed

lemma Read_recv_calls:
  "recv_calls (stream (snd (Read n r))) =
     recv_calls (stream r) +
     (if index r < length (buffer r) then 0
      else Suc (length (takeWhile empty_data (incoming (stream r)))))"
proof (induction "incoming (stream r)" arbitrary: r)
  case Nil
  then show ?case
    by (cases "index r < length (buffer r)") (simp_all add: Read_buffered Read_end)
next
  case (Cons m ms)
  show ?case
  proof (cases "index r < length (buffer r)")
    case True
    then show ?thesis by (simp add: Read_buffered)
  next
    case False
    show ?thesis
    proof (cases "GetData m")
      case None
      then have "\<not> empty_data m" by (auto simp: empty_data_def)
      with None False Cons(2) [symmetric] show ?thesis by (simp add: Read_not_data)
    next
      case (Some chunk)
      then have m: "m = GetSecretChunkResponse_Data chunk" by (cases m) simp_all
      let ?r = "r\<lparr>stream := (stream r)\<lparr>incoming := ms, recv_calls := Suc (recv_calls (stream r))\<rparr>,
                       buffer := chunk, index := 0\<rparr>"
      have "Read n r = Read n ?r"
        using Some False Cons(2) [symmetric] by (simp add: Read_refill)
      with Cons(1) [of ?r] Cons(2) [symmetric] False m show ?thesis
        by (simp add: empty_data_def)
    qed
  qed
qed

lemma drop_split:
  "drop i b = take n (drop i b) @ drop (i + min n (length b - i)) b"
proof -
  have "drop (i + min n (length b - i)) b = drop n (drop i b)"
    by (cases "n \<le> length b - i") (simp_all add: add.commute min_def)
  then show ?thesis by (metis append_take_drop_id)
qed

lemma Read_step:
  assumes "data_only (stream r)" and "Read n r = ((out, e), r')"
  shows "unread r = out @ unread r' \<and> data_only (stream r')
       \<and> (case e of None \<Rightarrow> 0 < n \<longrightarrow> out \<noteq> []
                   | Some e' \<Rightarrow> e' = EOF \<and> out = [] \<and> unread r = [])"
  using assms
proof (induction "incoming (stream r)" arbitrary: r)
  case Nil
  then show ?case
    using drop_split [of "index r" "buffer r" n]
    by (cases "index r < length (buffer r)")
       (auto simp add: Read_buffered Read_end unread_def data_only_def)
next
  case (Cons m ms)
  show ?case
  proof (cases "index r < length (buffer r)")
    case True
    with Cons(4) Cons(3) drop_split [of "index r" "buffer r" n] show ?thesis
      by (auto simp add: Read_buffered unread_def data_only_def)
  next
    case False
    from Cons(2) [symmetric] Cons(3) obtain chunk where chunk: "GetData m = Some chunk"
      by (auto simp: data_only_def)
    let ?r = "r\<lparr>stream := (stream r)\<lparr>incoming := ms, recv_calls := Suc (recv_calls (stream r))\<rparr>,
                       buffer := chunk, index := 0\<rparr>"
    have rd: "Read n ?r = ((out, e), r')"
      using chunk False Cons(2) [symmetric] Cons(4) by (simp add: Read_refill)
    have d: "data_only (stream ?r)"
      using Cons(3) Cons(2) [symmetric] by (simp add: data_only_def)
    have u: "unread r = unread ?r"
      using False chunk Cons(2) [symmetric] by (simp add: unread_def payload_of_def)
    have "ms = incoming (stream ?r)" by simp
    from Cons(1) [OF this d rd] show ?thesis unfolding u .
  qed
qed

lemma read_fragments_prefix:
  "data_only (stream r) \<Longrightarrow> read_fragments ns r = (fs, e, r') \<Longrightarrow>
   unread r = concat fs @ unread r' \<and> (e = None \<or> e = Some EOF) \<and> (e = Some EOF \<longrightarrow> unread r' = [])
   \<and> list_all2 (\<lambda>f n. length f \<le> n) fs (take (length fs) ns)"
proof (induction ns arbitrary: r fs e r')
  case Nil
  then show ?case by simp
next
  case (Cons n ns)
  obtain out e1 r1 where rd: "Read n r = ((out, e1), r1)" by (metis prod.exhaust)
  note st = Read_step [OF Cons(2) rd]
  have len: "length out \<le> n" using Read_length [of n r] rd by simp
  show ?case
  proof (cases e1)
    case None
    obtain fs2 e2 r2 where rf: "read_fragments ns r1 = (fs2, e2, r2)" by (metis prod.exhaust)
    with rd None Cons(3) have eq: "fs = out # fs2" "e = e2" "r' = r2" by simp_all
    from Cons(1) [OF _ rf] st eq len show ?thesis by simp
  next
    case (Some e')
    with rd Cons(3) have "fs = [out]" "e = Some e'" "r' = r1" by simp_all
    with st Some len show ?thesis by auto
  qed
qed

lemma read_fragments_reaches_EOF:
  "data_only (stream r) \<Longrightarrow> \<forall>n \<in> set ns. 0 < n \<Longrightarrow> length (unread r) < length ns \<Longrightarrow>
   fst (snd (read_fragments ns r)) = Some EOF"
proof (induction ns arbitrary: r)
  case Nil
  then show ?case by simp
next
  case (Cons n ns)
  obtain out e1 r1 where rd: "Read n r = ((out, e1), r1)" by (metis prod.exhaust)
  note st = Read_step [OF Cons(2) rd]
  show ?case
  proof (cases e1)
    case None
    with st Cons(3) have "out \<noteq> []" by simp
    with st Cons(4) have "length (unread r1) < length ns" by (cases out) auto
    with Cons(1) [of r1] st Cons(3) have "fst (snd (read_fragments ns r1)) = Some EOF" by simp
    with rd None show ?thesis by (auto split: prod.splits)
  next
    case (Some e')
    with rd st show ?thesis by simp
  qed
qed

section \<open>Round trip of the payload\<close>

lemma unread_relayed:
  "unread (NewSecretStreamReader (relayed ms)) = concat (data_payloads ms)"
  by (simp add: unread_def NewSecretStreamReader_def relayed_def payload_of_def comp_def)

lemma data_only_relayed: "data_only (stream (NewSecretStreamReader (relayed ms)))"
  by (simp add: data_only_def NewSecretStreamReader_def relayed_def list_all_iff)

lemma upload_succeeds:
  assumes "send_results st = []" and "close_result st = None"
    and "\<not> with_last reader" and "ending reader = EOF"
  shows "\<exists>st'. SecretClient_CreateSecretStream pb (Inr st) secret reader
            = (None, Some st', reader\<lparr>pending := []\<rparr>)"
  using assms
  by (simp add: SecretClient_CreateSecretStream_def sendMetadataChunk_def Send_ok
      sendDataChunks_closed end_result_def CloseAndRecv_def)

lemma upload_payload_is_content:
  assumes "SecretClient_CreateSecretStream pb (Inr st) secret reader = (None, Some st', reader')"
    and "\<not> with_last reader" and "sent st = []"
  shows "concat (data_payloads (sent st')) = concat (pending reader)"
proof -
  from CreateSecretStream_success [OF assms(1)] obtain st1 where
    m: "sendMetadataChunk pb st secret = (None, st1)" and
    d: "sendDataChunks st1 reader = (None, st', reader')" by auto
  from m assms(3) have "data_payloads (sent st1) = []"
    by (simp add: sendMetadataChunk_def Send_sent)
  with sendDataChunks_success [OF assms(2) d]
  have "data_payloads (sent st') = concat (map (chunks_of chunkSize) (pending reader))"
    by simp
  moreover have "concat (concat (map (chunks_of chunkSize) xs)) = concat xs" for xs :: "bytes list"
    using chunkSize_pos by (induction xs) (simp_all add: concat_chunks_of)
  ultimately show ?thesis by simp
qed

lemma download_reassembles:
  assumes "read_fragments ns (NewSecretStreamReader (relayed ms)) = (fs, Some EOF, r')"
  shows "concat fs = concat (data_payloads ms)"
  using read_fragments_prefix [OF data_only_relayed assms] by (simp add: unread_relayed)

lemma download_reaches_EOF:
  assumes "\<forall>n \<in> set ns. 0 < n" and "length (concat (data_payloads ms)) < length ns"
  shows "fst (snd (read_fragments ns (NewSecretStreamReader (relayed ms)))) = Some EOF"
  using assms by (intro read_fragments_reaches_EOF data_only_relayed) (simp_all add: unread_relayed)

lemma upload_download_roundtrip:
  assumes "SecretClient_CreateSecretStream pb (Inr st) secret reader = (None, Some st', reader')"
    and "\<not> with_last reader" and "sent st = []"
    and "\<forall>n \<in> set ns. 0 < n" and "length (concat (pending reader)) < length ns"
  shows "\<exists>fs r'. read_fragments ns (NewSecretStreamReader (relayed (sent st'))) = (fs, Some EOF, r')
           \<and> concat fs = concat (pending reader)"
proof -
  note c = upload_payload_is_content [OF assms(1-3)]
  obtain fs e r' where rf:
    "read_fragments ns (NewSecretStreamReader (relayed (sent st'))) = (fs, e, r')"
    by (metis prod.exhaust)
  with download_reaches_EOF [of ns "sent st'"] assms(4,5) c have "e = Some EOF" by simp
  with rf download_reassembles [of ns "sent st'" fs r'] c show ?thesis by simp
qed

section \<open>Reading a whole source\<close>

lemma io_ReadAll_loop_closed:
  "io_ReadAll_loop b r =
     ((b @ concat (pending r), if ending r = EOF then None else Some (ending r)),
      r\<lparr>pending := []\<rparr>)"
proof (induction "source_size r" arbitrary: b r rule: less_induct)
  case less
  show ?case
  proof (cases "pending r")
    case Nil
    then show ?thesis
      by (subst io_ReadAll_loop.simps) (simp add: source_Read_def)
  next
    case (Cons seg rest)
    show ?thesis
    proof (cases "512 < length seg")
      case True
      have "source_size (r\<lparr>pending := drop 512 seg # rest\<rparr>) < source_size r"
        using Cons True by (simp add: source_size_def)
      from less.hyps [OF this, of "b @ take 512 seg"] Cons True show ?thesis
        by (subst io_ReadAll_loop.simps) (simp add: source_Read_def)
    next
      case False
      from less.hyps [OF source_size_rest [OF Cons], of "b @ seg"] Cons False show ?thesis
        by (subst io_ReadAll_loop.simps) (simp add: source_Read_def)
    qed
  qed
qed

lemma io_ReadAll_closed:
  "io_ReadAll r =
     ((concat (pending r), if ending r = EOF then None else Some (ending r)),
      r\<lparr>pending := []\<rparr>)"
  by (simp add: io_ReadAll_def io_ReadAll_loop_closed)

section \<open>Uploads of the example values\<close>

lemma note_info_eq:
  "mapDomainSecretInfoToProtoCreateSecretInfoRequest names0 (Info note_secret) = note_info"
  by (simp add: mapDomainSecretInfoToProtoCreateSecretInfoRequest_def note_secret_def
      note_info_def names0_def mapDomainSecretTypeToProto_def TextSecretType_def
      CredentialsSecretType_def)

lemma upload_note_file:
  "SecretClient_CreateSecretStream names0 (Inr fresh_stream) note_secret (file_source ''ab'') =
     (None,
      Some (fresh_stream\<lparr>sent := [CreateSecretChunkRequest_Info note_info,
                                    CreateSecretChunkRequest_Data ''ab'']\<rparr>),
      (file_source ''ab'')\<lparr>pending := []\<rparr>)"
  by (simp add: SecretClient_CreateSecretStream_def sendMetadataChunk_def note_info_eq
      Send_ok sendDataChunks_closed CloseAndRecv_def end_result_def chunks_of_short
      chunkSize_def fresh_stream_def file_source_def)

lemma upload_note_empty:
  "SecretClient_CreateSecretStream names0 (Inr fresh_stream) note_secret (file_source []) =
     (None,
      Some (fresh_stream\<lparr>sent := [CreateSecretChunkRequest_Info note_info]\<rparr>),
      file_source [])"
  by (simp add: SecretClient_CreateSecretStream_def sendMetadataChunk_def note_info_eq
      Send_ok sendDataChunks_end CloseAndRecv_def
      fresh_stream_def file_source_def)

lemma upload_note_pipe:
  "SecretClient_CreateSecretStream names0 (Inr fresh_stream) note_secret (pipe_source [''a'', ''b'']) =
     (None,
      Some (fresh_stream\<lparr>sent := [CreateSecretChunkRequest_Info note_info,
                                    CreateSecretChunkRequest_Data ''a'',
                                    CreateSecretChunkRequest_Data ''b'']\<rparr>),
      (pipe_source [''a'', ''b''])\<lparr>pending := []\<rparr>)"
  by (simp add: SecretClient_CreateSecretStream_def sendMetadataChunk_def note_info_eq
      Send_ok sendDataChunks_closed CloseAndRecv_def end_result_def chunks_of_short
      chunkSize_def fresh_stream_def pipe_source_def)

lemma upload_note_data_err:
  "SecretClient_CreateSecretStream names0 (Inr fresh_stream) note_secret (data_err_source ''ab'') =
     (None,
      Some (fresh_stream\<lparr>sent := [CreateSecretChunkRequest_Info note_info]\<rparr>),
      (data_err_source ''ab'')\<lparr>pending := []\<rparr>)"
  by (simp add: SecretClient_CreateSecretStream_def sendMetadataChunk_def note_info_eq
      Send_ok sendDataChunks_last_with_error CloseAndRecv_def
      chunkSize_def fresh_stream_def data_err_source_def)

text \<open>
  The loop leaves on \<^verbatim>\<open>io.EOF\<close> before it looks at the bytes of the read: whatever a
  source returns together with \<^verbatim>\<open>io.EOF\<close> is not sent.
\<close>

lemma upload_drops_read_with_EOF:
  assumes "pending reader = [S]" and "length S \<le> chunkSize" and "with_last reader"
    and "ending reader = EOF" and "send_results st = []" and "close_result st = None"
  shows "SecretClient_CreateSecretStream pb (Inr st) secret reader =
     (None,
      Some (st\<lparr>sent := sent st @
                 [CreateSecretChunkRequest_Info
                    (mapDomainSecretInfoToProtoCreateSecretInfoRequest pb (Info secret))]\<rparr>),
      reader\<lparr>pending := []\<rparr>)"
  using assms
  by (simp add: SecretClient_CreateSecretStream_def sendMetadataChunk_def Send_ok
      sendDataChunks_last_with_error CloseAndRecv_def)

section \<open>The four secret types\<close>

lemma domain_types_distinct:
  "distinct [CredentialsSecretType, PaymentCardSecretType, FileSecretType, TextSecretType]"
  by (simp add: CredentialsSecretType_def PaymentCardSecretType_def FileSecretType_def
      TextSecretType_def)

section \<open>Claims\<close>

subsection \<open>Streamed upload\<close>

text \<open>
  Claim C1, at a source that reports \<^verbatim>\<open>io.EOF\<close> together with its last bytes. The source
  holds the two bytes "ab" and returns them with \<^verbatim>\<open>io.EOF\<close> in one read. The upload loop
  tests for \<^verbatim>\<open>io.EOF\<close> before it looks at the bytes of the read, so it leaves the loop
  without sending them: the upload succeeds with the Info message alone, the payload of
  its Data messages is empty and not "ab", and a download of the relayed messages ends
  at once with no bytes. \<^verbatim>\<open>io.ReadAll\<close>, used on the buffered path, reads "ab" from the
  same source.
\<close>

theorem upload_loses_bytes_returned_with_EOF:
  "SecretClient_CreateSecretStream names0 (Inr fresh_stream) note_secret (data_err_source ''ab'') =
     (None,
      Some (fresh_stream\<lparr>sent := [CreateSecretChunkRequest_Info note_info]\<rparr>),
      (data_err_source ''ab'')\<lparr>pending := []\<rparr>)
   \<and> concat (pending (data_err_source ''ab'')) = ''ab''
   \<and> concat (data_payloads [CreateSecretChunkRequest_Info note_info]) = []
   \<and> read_fragments [4, 4]
        (NewSecretStreamReader (relayed [CreateSecretChunkRequest_Info note_info]))
       = ([[]], Some EOF,
          NewSecretStreamReader
            ((relayed [CreateSecretChunkRequest_Info note_info])\<lparr>recv_calls := 1\<rparr>))
   \<and> fst (io_ReadAll (data_err_source ''ab'')) = (''ab'', None)"
  by (simp add: upload_note_data_err)
     (simp add: data_err_source_def relayed_def NewSecretStreamReader_def Read_end
        io_ReadAll_closed)

text \<open>
  Claim C2. A streamed upload that succeeds has sent, on the stream it opened, exactly
  one Info message, first, whose fields are the name, the mapped type and the metadata of
  the secret (the message has no other field, so the version is never sent), followed by
  Data messages only, none of them empty; when the source has no content there is no
  Data message at all.
\<close>

theorem upload_message_sequence:
  assumes "SecretClient_CreateSecretStream pb opened secret reader = (None, res, reader')"
  shows "\<exists>st st' ds. opened = Inr st \<and> res = Some st'
       \<and> sent st' = sent st
           @ CreateSecretChunkRequest_Info
               \<lparr>req_Name = Name (Info secret),
                req_Type = mapDomainSecretTypeToProto pb (Type (Info secret)),
                req_Metadata = Metadata (Info secret)\<rparr>
           # map CreateSecretChunkRequest_Data ds
       \<and> [] \<notin> set ds
       \<and> (concat (pending reader) = [] \<longrightarrow> ds = [])"
proof -
  from CreateSecretStream_success [OF assms] obtain st st1 st' where
    o: "opened = Inr st" "res = Some st'" and
    m: "sendMetadataChunk pb st secret = (None, st1)" and
    d: "sendDataChunks st1 reader = (None, st', reader')" by blast
  let ?i = "CreateSecretChunkRequest_Info
               \<lparr>req_Name = Name (Info secret),
                req_Type = mapDomainSecretTypeToProto pb (Type (Info secret)),
                req_Metadata = Metadata (Info secret)\<rparr>"
  from m have s1: "sent st1 = sent st @ [?i]"
    by (simp add: sendMetadataChunk_def Send_sent
        mapDomainSecretInfoToProtoCreateSecretInfoRequest_def)
  from sendDataChunks_shape [of st1 reader] d obtain ds where
    ds: "sent st' = sent st1 @ map CreateSecretChunkRequest_Data ds" "[] \<notin> set ds"
    by auto
  have "ds = []" if "concat (pending reader) = []"
    using sendDataChunks_empty_content [OF that, of st1] d ds by simp
  with o s1 ds show ?thesis by auto
qed

theorem upload_message_sequence_witness:
  "SecretClient_CreateSecretStream names0 (Inr fresh_stream) note_secret (file_source []) =
     (None, Some (fresh_stream\<lparr>sent := [CreateSecretChunkRequest_Info note_info]\<rparr>),
      file_source [])
   \<and> concat (pending (file_source [])) = []
   \<and> (\<exists>st st' ds. (Inr fresh_stream :: error + client_stream) = Inr st
       \<and> Some (fresh_stream\<lparr>sent := [CreateSecretChunkRequest_Info note_info]\<rparr>) = Some st'
       \<and> sent st' = sent st
           @ CreateSecretChunkRequest_Info
               \<lparr>req_Name = Name (Info note_secret),
                req_Type = mapDomainSecretTypeToProto names0 (Type (Info note_secret)),
                req_Metadata = Metadata (Info note_secret)\<rparr>
           # map CreateSecretChunkRequest_Data ds
       \<and> [] \<notin> set ds \<and> ds = [])"
proof -
  have c: "concat (pending (file_source [])) = []" by (simp add: file_source_def)
  from upload_message_sequence [OF upload_note_empty] c upload_note_empty
  show ?thesis by blast
qed

text \<open>
  Claim C3 as stated fails for a pipe. The source delivers the bytes "a" and "b" in two
  pieces, as a pipe does for two writes; the upload sends two Data messages, while the
  content of two bytes fits one chunk: ceil(2 / chunkSize) = 1.
\<close>

theorem data_message_count_counterexample:
  "SecretClient_CreateSecretStream names0 (Inr fresh_stream) note_secret (pipe_source [''a'', ''b'']) =
     (None,
      Some (fresh_stream\<lparr>sent := [CreateSecretChunkRequest_Info note_info,
                                    CreateSecretChunkRequest_Data ''a'',
                                    CreateSecretChunkRequest_Data ''b'']\<rparr>),
      (pipe_source [''a'', ''b''])\<lparr>pending := []\<rparr>)
   \<and> length (data_payloads [CreateSecretChunkRequest_Info note_info,
                              CreateSecretChunkRequest_Data ''a'',
                              CreateSecretChunkRequest_Data ''b'']) = 2
   \<and> (length (concat (pending (pipe_source [''a'', ''b'']))) + chunkSize - 1) div chunkSize = 1"
  by (simp add: upload_note_pipe) (simp add: pipe_source_def chunkSize_def)

text \<open>
  Claim C3, amended. For a source that reports the end of its input on a read of its own
  (it returns no bytes together with \<^verbatim>\<open>io.EOF\<close>), a successful upload on a freshly
  opened stream sends, for every piece in which the content becomes available,
  ceil(length of the piece / chunkSize) Data messages, in all the sum over the pieces.
  For a source whose whole content \<open>S\<close> is available at once (a file or an in-memory
  reader) that is ceil(length S / chunkSize), and it is zero when the content is empty.
\<close>

theorem data_message_count:
  assumes "SecretClient_CreateSecretStream pb (Inr st) secret reader = (None, Some st', reader')"
    and "\<not> with_last reader" and "sent st = []"
  shows "length (data_payloads (sent st'))
           = (\<Sum>piece\<leftarrow>pending reader. (length piece + chunkSize - 1) div chunkSize)
       \<and> (\<forall>S. reader = file_source S \<longrightarrow>
             length (data_payloads (sent st')) = (length S + chunkSize - 1) div chunkSize)
       \<and> (concat (pending reader) = [] \<longrightarrow> length (data_payloads (sent st')) = 0)"
proof -
  from CreateSecretStream_success [OF assms(1)] obtain st1 where
    m: "sendMetadataChunk pb st secret = (None, st1)" and
    d: "sendDataChunks st1 reader = (None, st', reader')" by auto
  from m assms(3) have "data_payloads (sent st1) = []"
    by (simp add: sendMetadataChunk_def Send_sent)
  with sendDataChunks_success [OF assms(2) d]
  have "data_payloads (sent st') = concat (map (chunks_of chunkSize) (pending reader))"
    by simp
  then have n: "length (data_payloads (sent st'))
           = (\<Sum>piece\<leftarrow>pending reader. (length piece + chunkSize - 1) div chunkSize)"
    using chunkSize_pos by (simp add: length_concat length_chunks_of comp_def)
  have z: "(\<Sum>piece\<leftarrow>ps. (length piece + chunkSize - 1) div chunkSize) = 0"
    if "concat ps = []" for ps :: "bytes list"
    using that chunkSize_pos by (induction ps) simp_all
  from n z show ?thesis
    using chunkSize_pos by (auto simp: file_source_def)
qed

theorem data_message_count_witness:
  "SecretClient_CreateSecretStream names0 (Inr fresh_stream) note_secret (file_source ''ab'') =
     (None,
      Some (fresh_stream\<lparr>sent := [CreateSecretChunkRequest_Info note_info,
                                    CreateSecretChunkRequest_Data ''ab'']\<rparr>),
      (file_source ''ab'')\<lparr>pending := []\<rparr>)
   \<and> \<not> with_last (file_source ''ab'') \<and> sent fresh_stream = []
   \<and> length (data_payloads (sent (fresh_stream\<lparr>sent := [CreateSecretChunkRequest_Info note_info,
                                    CreateSecretChunkRequest_Data ''ab'']\<rparr>)))
       = (length ''ab'' + chunkSize - 1) div chunkSize
   \<and> SecretClient_CreateSecretStream names0 (Inr fresh_stream) note_secret (file_source []) =
     (None, Some (fresh_stream\<lparr>sent := [CreateSecretChunkRequest_Info note_info]\<rparr>),
      file_source [])
   \<and> \<not> with_last (file_source []) \<and> concat (pending (file_source [])) = []
   \<and> length (data_payloads (sent (fresh_stream\<lparr>sent := [CreateSecretChunkRequest_Info note_info]\<rparr>)))
       = 0"
proof -
  have w: "\<not> with_last (file_source ''ab'')" by (simp add: file_source_def)
  have w0: "\<not> with_last (file_source [])" by (simp add: file_source_def)
  have c0: "concat (pending (file_source [])) = []" by (simp add: file_source_def)
  have f: "sent fresh_stream = []" by (simp add: fresh_stream_def)
  from data_message_count [OF upload_note_file w f]
    data_message_count [OF upload_note_empty w0 f]
    upload_note_file upload_note_empty w w0 c0 f
  show ?thesis by blast
qed

subsection \<open>Streamed download\<close>

lemma first_message_info_opens_reader:
  assumes "incoming s = GetSecretChunkResponse_Info i # ms"
  shows "GetLatestSecretStream pb (Inr s) =
           Inr (NewSecretStreamReader (s\<lparr>incoming := ms, recv_calls := Suc (recv_calls s)\<rparr>),
                mapProtoGetSecretInfoResponseToDomainSecretInfo pb i)"
  using assms by (simp add: GetLatestSecretStream_def Recv_def)

text \<open>
  Claim C4. When the download stream is open and the first message received is not an
  Info message (a Data message, or a message with no chunk set), both streamed reads
  return the error "first chunk must contain secret info" and nothing else: no reader
  and no secret info.
\<close>

theorem first_message_must_be_info:
  assumes "incoming s = m # ms" and "GetInfo m = None"
  shows "GetLatestSecretStream pb (Inr s) = Inl (Errorf ''first chunk must contain secret info'')
       \<and> GetSecretStreamByVersion pb (Inr s) = Inl (Errorf ''first chunk must contain secret info'')"
  using assms by (simp add: GetLatestSecretStream_def GetSecretStreamByVersion_def Recv_def)

theorem first_message_must_be_info_witness:
  "incoming data_first = GetSecretChunkResponse_Data ''abc'' # []
   \<and> GetInfo (GetSecretChunkResponse_Data ''abc'') = None
   \<and> GetLatestSecretStream names0 (Inr data_first)
      = Inl (Errorf ''first chunk must contain secret info'')
   \<and> GetSecretStreamByVersion names0 (Inr data_first)
      = Inl (Errorf ''first chunk must contain secret info'')"
proof -
  have a: "incoming data_first = GetSecretChunkResponse_Data ''abc'' # []"
    by (simp add: data_first_def)
  have b: "GetInfo (GetSecretChunkResponse_Data ''abc'') = None" by simp
  from first_message_must_be_info [OF a b, of names0] a b show ?thesis by blast
qed

text \<open>
  Claim C5 as stated fails when an empty Data message arrives. The stream delivers an
  empty Data message and then the byte "a"; one call of Read for one byte receives both
  messages before it returns: two receives, not at most one.
\<close>

theorem read_two_receives_counterexample:
  "Read 1 (NewSecretStreamReader empty_then_data)
     = ((''a'', None),
        \<lparr>stream = \<lparr>incoming = [], final = EOF, recv_calls = 2\<rparr>, buffer = ''a'', index = 1\<rparr>)
   \<and> recv_calls (stream (NewSecretStreamReader empty_then_data)) = 0
   \<and> \<not> recv_calls (stream (snd (Read 1 (NewSecretStreamReader empty_then_data)))) \<le> 1"
  by (simp add: NewSecretStreamReader_def empty_then_data_def Read_refill Read_buffered)

text \<open>
  Claim C5, amended. A call of Read never returns more bytes than requested. It makes no
  receive while unread bytes are buffered; otherwise it makes one receive, and one more
  for every empty Data message that arrives before a non-empty message, another message
  or the end of the stream. So a call makes at most one receive when no Data message
  still to arrive is empty.
\<close>

theorem read_bounded:
  "length (fst (fst (Read n r))) \<le> n
   \<and> recv_calls (stream (snd (Read n r))) =
       recv_calls (stream r) +
       (if index r < length (buffer r) then 0
        else Suc (length (takeWhile empty_data (incoming (stream r)))))
   \<and> ((\<forall>m \<in> set (incoming (stream r)). \<not> empty_data m) \<longrightarrow>
        recv_calls (stream (snd (Read n r))) \<le> Suc (recv_calls (stream r)))"
proof -
  have "takeWhile empty_data (incoming (stream r)) = []"
    if "\<forall>m \<in> set (incoming (stream r)). \<not> empty_data m"
    using that by (cases "incoming (stream r)") simp_all
  then show ?thesis
    by (simp add: Read_length Read_recv_calls)
qed

theorem read_bounded_witness:
  "incoming (stream (NewSecretStreamReader data_first)) = [GetSecretChunkResponse_Data ''abc'']
   \<and> \<not> empty_data (GetSecretChunkResponse_Data ''abc'')
   \<and> length (fst (fst (Read 2 (NewSecretStreamReader data_first)))) \<le> 2
   \<and> recv_calls (stream (snd (Read 2 (NewSecretStreamReader data_first)))) \<le> 1
   \<and> Read 2 (NewSecretStreamReader data_first)
      = ((''ab'', None),
         \<lparr>stream = \<lparr>incoming = [], final = EOF, recv_calls = 1\<rparr>, buffer = ''abc'', index = 2\<rparr>)"
proof -
  let ?r = "NewSecretStreamReader data_first"
  have i: "incoming (stream ?r) = [GetSecretChunkResponse_Data ''abc'']"
    by (simp add: NewSecretStreamReader_def data_first_def)
  have n: "\<not> empty_data (GetSecretChunkResponse_Data ''abc'')"
    by (simp add: empty_data_def)
  from i n have h: "\<forall>m \<in> set (incoming (stream ?r)). \<not> empty_data m" by simp
  have e: "Read 2 ?r = ((''ab'', None),
         \<lparr>stream = \<lparr>incoming = [], final = EOF, recv_calls = 1\<rparr>, buffer = ''abc'', index = 2\<rparr>)"
    by (simp add: NewSecretStreamReader_def data_first_def Read_refill Read_buffered)
  have z: "recv_calls (stream ?r) = 0" by (simp add: NewSecretStreamReader_def data_first_def)
  from read_bounded [of 2 ?r] h i n e z show ?thesis by simp
qed

subsection \<open>Auth interceptor\<close>

text \<open>The file-backed store reports that no token is stored when the file is absent or empty.\<close>

lemma TokenRepo_no_token:
  assumes "read_failure fs = None" and "token_file fs = None \<or> token_file fs = Some []"
  shows "GetToken TokenRepo fs = Inl ErrTokenNotFound"
  using assms
  by (auto simp: TokenRepo_def TokenRepo_GetToken_def os_ReadFile_def os_ErrNotExist_def)

lemma TokenRepo_token:
  assumes "read_failure fs = None" and "token_file fs = Some token" and "token \<noteq> []"
  shows "GetToken TokenRepo fs = Inr token"
  using assms by (simp add: TokenRepo_def TokenRepo_GetToken_def os_ReadFile_def)

text \<open>
  Claim C6. When the token store has no token (\<open>GetToken\<close> fails, with
  \<open>ErrTokenNotFound\<close> or any other error), the unary and the stream interceptor return
  the error "failed to get token" wrapping it and leave the connection as it was,
  whatever the invoker or the streamer would do: neither is called. When the store holds
  a token, the call is passed on with outgoing metadata that consists of the one entry
  authorization: Bearer followed by the token.
\<close>

theorem auth_interceptor_token:
  "(\<forall>err. GetToken repo store = Inl err \<longrightarrow>
      UnaryInterceptor repo store ctx invoker w = (Some (Wrapf ''failed to get token'' err), w)
      \<and> StreamInterceptor repo store ctx streamer w = (Inl (Wrapf ''failed to get token'' err), w))
   \<and> (\<forall>token. GetToken repo store = Inr token \<longrightarrow>
      UnaryInterceptor repo store ctx invoker w
        = invoker (ctx\<lparr>outgoing := Some [''authorization'' \<mapsto> [''Bearer '' @ token]]\<rparr>) w
      \<and> StreamInterceptor repo store ctx streamer w
        = streamer (ctx\<lparr>outgoing := Some [''authorization'' \<mapsto> [''Bearer '' @ token]]\<rparr>) w)"
  by (simp add: UnaryInterceptor_def StreamInterceptor_def injectAuthMetadata_def
      metadata_NewOutgoingContext_def metadata_Pairs_def)

theorem auth_interceptor_token_witness:
  "GetToken TokenRepo no_token_fs = Inl ErrTokenNotFound
   \<and> errors_Is (Wrapf ''failed to get token'' ErrTokenNotFound) ErrTokenNotFound
   \<and> UnaryInterceptor TokenRepo no_token_fs background (recording_invoker None) []
       = (Some (Wrapf ''failed to get token'' ErrTokenNotFound), [])
   \<and> StreamInterceptor TokenRepo no_token_fs background (recording_streamer (Inr ())) []
       = (Inl (Wrapf ''failed to get token'' ErrTokenNotFound), [])
   \<and> GetToken TokenRepo (no_token_fs\<lparr>token_file := Some ''jwt''\<rparr>) = Inr ''jwt''
   \<and> UnaryInterceptor TokenRepo (no_token_fs\<lparr>token_file := Some ''jwt''\<rparr>) background
        (recording_invoker None) []
       = (None, [\<lparr>outgoing = Some [''authorization'' \<mapsto> [''Bearer jwt'']]\<rparr>])
   \<and> StreamInterceptor TokenRepo (no_token_fs\<lparr>token_file := Some ''jwt''\<rparr>) background
        (recording_streamer (Inr ())) []
       = (Inr (), [\<lparr>outgoing = Some [''authorization'' \<mapsto> [''Bearer jwt'']]\<rparr>])"
proof -
  have a: "GetToken TokenRepo no_token_fs = Inl ErrTokenNotFound"
    by (simp add: TokenRepo_def TokenRepo_GetToken_def os_ReadFile_def no_token_fs_def
        os_ErrNotExist_def)
  have b: "GetToken TokenRepo (no_token_fs\<lparr>token_file := Some ''jwt''\<rparr>) = Inr ''jwt''"
    by (simp add: TokenRepo_def TokenRepo_GetToken_def os_ReadFile_def no_token_fs_def)
  from auth_interceptor_token [of TokenRepo no_token_fs background "recording_invoker None" "[]"
      "recording_streamer (Inr ())"]
    auth_interceptor_token [of TokenRepo "no_token_fs\<lparr>token_file := Some ''jwt''\<rparr>" background
      "recording_invoker None" "[]" "recording_streamer (Inr ())"]
    a b show ?thesis
    by (simp add: recording_invoker_def recording_streamer_def background_def)
qed

subsection \<open>Secret service\<close>

lemma create_secret_read_failure:
  assumes "Type (Info secret) \<in> {CredentialsSecretType, PaymentCardSecretType}"
    and "ending contentReader \<noteq> EOF"
  shows "SecretService_CreateSecret client secret contentReader w =
     (Some (Wrapf ''application.CreateSecret: failed to read secret content''
              (ending contentReader)), w)"
  using assms by (auto simp: SecretService_CreateSecret_def io_ReadAll_closed)

text \<open>The same for any client: the service does what one call of the client does.\<close>

lemma create_secret_buffered:
  assumes "Type (Info secret) \<in> {CredentialsSecretType, PaymentCardSecretType}"
    and "ending contentReader = EOF"
  shows "SecretService_CreateSecret client secret contentReader w =
     (case CreateSecret client (secret\<lparr>Data := concat (pending contentReader)\<rparr>) w of
        (Some err, w') \<Rightarrow>
          (Some (Wrapf ''application.CreateSecret: failed to create secret'' err), w')
      | (None, w') \<Rightarrow> (None, w'))"
  using assms by (auto simp: SecretService_CreateSecret_def io_ReadAll_closed)

lemma create_secret_streamed:
  assumes "Type (Info secret) \<in> {FileSecretType, TextSecretType}"
  shows "SecretService_CreateSecret client secret contentReader w =
     (case CreateSecretStream client secret contentReader w of
        (Some err, w') \<Rightarrow>
          (Some (Wrapf ''application.CreateSecret: failed to create stream secret'' err), w')
      | (None, w') \<Rightarrow> (None, w'))"
  using assms domain_types_distinct by (auto simp: SecretService_CreateSecret_def)

text \<open>
  Claim C7. On a client that records its calls: for a secret of type credentials or
  payment card whose source can be read to its end, the service makes exactly one call,
  the buffered create, with the whole content of the source as the data of the secret;
  for a secret of type file or text it makes exactly one call, the streamed create, with
  the secret and the source as they were given, nothing read from it. The result is the
  result of that call, wrapped when it is an error.
\<close>

theorem create_secret_dispatch:
  "(Type (Info secret) \<in> {CredentialsSecretType, PaymentCardSecretType} \<longrightarrow>
      ending contentReader = EOF \<longrightarrow>
      SecretService_CreateSecret (recording_client res1 res2) secret contentReader calls
        = (map_option (Wrapf ''application.CreateSecret: failed to create secret'') res1,
           calls @ [Call_CreateSecret (secret\<lparr>Data := concat (pending contentReader)\<rparr>)]))
   \<and> (Type (Info secret) \<in> {FileSecretType, TextSecretType} \<longrightarrow>
      SecretService_CreateSecret (recording_client res1 res2) secret contentReader calls
        = (map_option (Wrapf ''application.CreateSecret: failed to create stream secret'') res2,
           calls @ [Call_CreateSecretStream secret contentReader]))"
  using domain_types_distinct
  by (cases res1; cases res2)
     (auto simp: SecretService_CreateSecret_def recording_client_def io_ReadAll_closed)

theorem create_secret_dispatch_witness:
  "Type (Info card_secret) \<in> {CredentialsSecretType, PaymentCardSecretType}
   \<and> ending (pipe_source [''12'', ''34'']) = EOF
   \<and> SecretService_CreateSecret (recording_client None None) card_secret
        (pipe_source [''12'', ''34'']) []
      = (None, [Call_CreateSecret (card_secret\<lparr>Data := ''1234''\<rparr>)])
   \<and> Type (Info note_secret) \<in> {FileSecretType, TextSecretType}
   \<and> SecretService_CreateSecret (recording_client None None) note_secret
        (pipe_source [''12'', ''34'']) []
      = (None, [Call_CreateSecretStream note_secret (pipe_source [''12'', ''34''])])"
proof -
  have a: "Type (Info card_secret) \<in> {CredentialsSecretType, PaymentCardSecretType}"
    by (simp add: card_secret_def)
  have b: "ending (pipe_source [''12'', ''34'']) = EOF"
    by (simp add: pipe_source_def)
  have c: "Type (Info note_secret) \<in> {FileSecretType, TextSecretType}"
    by (simp add: note_secret_def)
  have d: "concat (pending (pipe_source [''12'', ''34''])) = ''1234''"
    by (simp add: pipe_source_def)
  from create_secret_dispatch [of card_secret "pipe_source [''12'', ''34'']" None None "[]"]
    create_secret_dispatch [of note_secret "pipe_source [''12'', ''34'']" None None "[]"]
    a b c d show ?thesis by auto
qed

text \<open>
  Claim C10. For a secret whose type is none of the four known types the service returns
  success and leaves the outside world as it was, whatever the client is: it makes no
  call, buffered or streamed, and reports no error.
\<close>

theorem unknown_type_is_dropped:
  assumes "Type (Info secret) \<notin>
             {CredentialsSecretType, PaymentCardSecretType, FileSecretType, TextSecretType}"
  shows "SecretService_CreateSecret client secret contentReader w = (None, w)"
  using assms by (simp add: SecretService_CreateSecret_def)

theorem unknown_type_is_dropped_witness:
  "Type (Info odd_secret) \<notin>
             {CredentialsSecretType, PaymentCardSecretType, FileSecretType, TextSecretType}
   \<and> SecretService_CreateSecret (recording_client None None) odd_secret
        (file_source ''ab'') [] = (None, [])"
proof -
  have a: "Type (Info odd_secret) \<notin>
             {CredentialsSecretType, PaymentCardSecretType, FileSecretType, TextSecretType}"
    by (simp add: odd_secret_def CredentialsSecretType_def PaymentCardSecretType_def
        FileSecretType_def TextSecretType_def)
  from unknown_type_is_dropped [OF a, of "recording_client None None" "file_source ''ab''" "[]"] a
  show ?thesis by blast
qed

subsection \<open>Login\<close>

lemma empty_token_saves_nothing:
  assumes "pb_Login c login passsword = Inr []"
  shows "AuthService_Login (grpc_AuthClient c) tokenRepository login passsword store
           = (Some (Wrapf ''application.Login'' (Errorf ''received empty token'')), store)"
  using assms by (simp add: AuthService_Login_def grpc_AuthClient_def AuthClient_Login_def)

lemma successful_login_saves_token:
  assumes "pb_Login c login passsword = Inr token" and "token \<noteq> []"
  shows "AuthService_Login (grpc_AuthClient c) TokenRepo login passsword no_token_fs
           = (None, no_token_fs\<lparr>token_file := Some token\<rparr>)"
  using assms
  by (simp add: AuthService_Login_def grpc_AuthClient_def AuthClient_Login_def TokenRepo_def
      TokenRepo_SaveToken_def no_token_fs_def)

text \<open>
  Claim C9. When the backend answers a login with an error, whatever the error, the gRPC
  client returns an error, the service returns that error wrapped, and the token store is
  exactly as before, whatever its \<open>SaveToken\<close> does: it is not called.
\<close>

theorem failed_login_saves_no_token:
  assumes "pb_Login c login passsword = Inl err"
  shows "\<exists>e. AuthClient_Login c login passsword = Inl e
           \<and> AuthService_Login (grpc_AuthClient c) tokenRepository login passsword store
               = (Some (Wrapf ''application.Login'' e), store)"
  using assms
  by (simp add: AuthService_Login_def grpc_AuthClient_def AuthClient_Login_def
      split: option.splits)

theorem failed_login_saves_no_token_witness:
  "pb_Login refusing_backend ''alice'' ''wrong'' = Inl (StatusError InvalidArgument)
   \<and> AuthService_Login (grpc_AuthClient refusing_backend) counting_repo ''alice'' ''wrong'' 0
       = (Some (Wrapf ''application.Login'' ErrInvalidCredentials), 0)"
proof -
  have a: "pb_Login refusing_backend ''alice'' ''wrong'' = Inl (StatusError InvalidArgument)"
    by (simp add: refusing_backend_def)
  from failed_login_saves_no_token [OF a, of counting_repo 0] obtain e where
    e: "AuthClient_Login refusing_backend ''alice'' ''wrong'' = Inl e"
       "AuthService_Login (grpc_AuthClient refusing_backend) counting_repo ''alice'' ''wrong'' 0
          = (Some (Wrapf ''application.Login'' e), 0)" by blast
  have "AuthClient_Login refusing_backend ''alice'' ''wrong'' = Inl ErrInvalidCredentials"
    by (simp add: AuthClient_Login_def refusing_backend_def)
  with e a show ?thesis by simp
qed

subsection \<open>Secret type mapping\<close>

text \<open>
  Claim C8. The wire enumeration CREDENTIALS, PAYMENT\_CARD, BINARY, TEXT corresponds one
  to one to the domain types credentials, payment\_card, file, text: encoding one of the
  four domain types and decoding the result gives the type back, decoding one of the four
  wire values and encoding the result gives the value back, BINARY is the file type, and
  every other wire value decodes to the string "unknown".
\<close>

theorem secret_type_mapping:
  assumes "names_distinct pb"
  shows "(\<forall>t \<in> {CredentialsSecretType, PaymentCardSecretType, FileSecretType, TextSecretType}.
            mapProtoSecretTypeToDomain pb (mapDomainSecretTypeToProto pb t) = t)
       \<and> (\<forall>v \<in> {SecretType_CREDENTIALS pb, SecretType_PAYMENT_CARD pb,
                  SecretType_BINARY pb, SecretType_TEXT pb}.
            mapDomainSecretTypeToProto pb (mapProtoSecretTypeToDomain pb v) = v)
       \<and> mapProtoSecretTypeToDomain pb (SecretType_BINARY pb) = FileSecretType
       \<and> (\<forall>v. v \<notin> {SecretType_CREDENTIALS pb, SecretType_PAYMENT_CARD pb,
                  SecretType_BINARY pb, SecretType_TEXT pb}
            \<longrightarrow> mapProtoSecretTypeToDomain pb v = ''unknown'')"
  using assms domain_types_distinct
  by (auto simp: names_distinct_def mapProtoSecretTypeToDomain_def mapDomainSecretTypeToProto_def)

theorem secret_type_mapping_witness:
  "names_distinct names0
   \<and> mapProtoSecretTypeToDomain names0 (mapDomainSecretTypeToProto names0 FileSecretType)
       = FileSecretType
   \<and> mapDomainSecretTypeToProto names0 (mapProtoSecretTypeToDomain names0 1) = 1
   \<and> mapProtoSecretTypeToDomain names0 7 = ''unknown''"
proof -
  have d: "names_distinct names0"
    by (simp add: names_distinct_def names0_def)
  have v: "(1::32 word) \<in> {SecretType_CREDENTIALS names0, SecretType_PAYMENT_CARD names0,
                  SecretType_BINARY names0, SecretType_TEXT names0}"
    by (simp add: names0_def)
  have u: "(7::32 word) \<notin> {SecretType_CREDENTIALS names0, SecretType_PAYMENT_CARD names0,
                  SecretType_BINARY names0, SecretType_TEXT names0}"
    by (simp add: names0_def)
  from secret_type_mapping [OF d] d v u show ?thesis by blast
qed

end
